theory Spec2Isabelle
  imports Main "HOL-Library.Monad_Syntax" "HOL-Library.Word"
begin

section \<open>The Assign mutator\<close>

text \<open>
  An embedding of \<^verbatim>\<open>pkg/mutation/assign_mutator.go\<close>, called the source file below.
\<close>

subsection \<open>Errors and decoded values\<close>

text \<open>
  Go errors are values. \<open>New\<close> is \<^verbatim>\<open>errors.New\<close>, \<open>Wrap\<close> is
  \<^verbatim>\<open>errors.Wrap(err, msg)\<close>, \<open>Errorf\<close> is \<^verbatim>\<open>fmt.Errorf\<close> with its format and its
  arguments kept apart, and \<open>External\<close> is an error produced by a collaborator that
  lives outside the source file (the path parser, encoding/json, MakeID, the match predicate).

  \<open>val\<close> is what encoding/json stores in an \<^verbatim>\<open>interface{}\<close>: \<open>VNil\<close> is the nil
  interface (JSON null), a float64 is carried as its bit pattern (the source never
  computes with it), and a \<^verbatim>\<open>map[string]interface{}\<close> is an association list read
  with \<open>map_of\<close>.
\<close>

datatype val =
    VNil
  | VBool bool
  | VFloat64 "64 word"
  | VString string
  | VSlice "val list"
  | VMap "(string \<times> val) list"

datatype error =
    External string
  | New string
  | Wrap error string
  | Errorf string "val list"

subsection \<open>Slices\<close>

text \<open>
  A Go slice is either nil or holds its elements, and a nil slice is not the same value
  as an empty one: \<^verbatim>\<open>cmp.Equal\<close> tells them apart. \<open>elems\<close> is what \<^verbatim>\<open>len\<close>,
  indexing and \<^verbatim>\<open>range\<close> see, for which a nil slice has no element.
\<close>

datatype 'a slice = NilSlice | Slice "'a list"

fun elems :: "'a slice \<Rightarrow> 'a list" where
  "elems NilSlice = []"
| "elems (Slice xs) = xs"

subsection \<open>Path nodes (package parser)\<close>

text \<open>
  Modelled from the spec: the node types are declared in package parser
  (pkg/mutation/path/parser), outside the source file. Section 3 of the specification gives a
  node two variants, and the source file reads exactly their attributes:
  \<^verbatim>\<open>*parser.Object\<close> with its \<^verbatim>\<open>Reference\<close>, \<^verbatim>\<open>*parser.List\<close> with \<^verbatim>\<open>KeyField\<close>,
  \<^verbatim>\<open>KeyValue\<close> (a \<^verbatim>\<open>*string\<close>, nil when absent) and \<^verbatim>\<open>Glob\<close>, and the tag returned by
  \<^verbatim>\<open>Type()\<close>. With the two variants closed, the type assertions
  \<^verbatim>\<open>lastNode.(*parser.Object)\<close> and \<^verbatim>\<open>secondLastNode.(*parser.List)\<close> that follow a test
  of the tag always succeed, so their "failed converting" branches have no counterpart
  here.
\<close>

datatype NodeType = ListNode | ObjectNode

datatype Node =
    Object (Reference: string)
  | List (KeyField: string) (KeyValue: "string option") (Glob: bool)

fun Type :: "Node \<Rightarrow> NodeType" where
  "Type (Object r) = ObjectNode"
| "Type (List kf kv g) = ListNode"

record Path =
  Nodes :: "Node slice"

subsection \<open>The declaration and the mutator record\<close>

text \<open>
  Modelled from the spec: \<^verbatim>\<open>Assign\<close> and \<^verbatim>\<open>ApplyTo\<close> (package
  apis/mutations/v1alpha1), \<^verbatim>\<open>SchemaBinding\<close> and \<^verbatim>\<open>ID\<close> are declared outside the source
  file. By section 3 of the specification a declaration carries a match predicate, a
  location string, a value payload and its \<^verbatim>\<open>applyTo\<close> entries, and a binding lists
  groups, kinds and versions; the fields below are the ones the source file reads. The match
  criteria and the identity are opaque here: they are only passed on and compared, so
  they are type parameters.
\<close>

record ApplyTo =
  Groups :: "string slice"
  Kinds :: "string slice"
  Versions :: "string slice"

text \<open>
  \<^verbatim>\<open>Parameters\<close> is \<^verbatim>\<open>Spec.Parameters.Assign.Raw\<close>, the undecoded payload, a
  \<^verbatim>\<open>[]byte\<close>.
\<close>

record 'match AssignSpec =
  ApplyTo :: "ApplyTo slice"
  Match :: 'match
  Location :: string
  Parameters :: "char slice"

record 'match Assign =
  Name :: string
  Spec :: "'match AssignSpec"

record SchemaBinding =
  BGroups :: "string slice"
  BKinds :: "string slice"
  BVersions :: "string slice"

text \<open>
  The field \<^verbatim>\<open>id\<close> is written \<open>id'\<close>, since \<open>id\<close> is HOL's identity function. The
  fields \<^verbatim>\<open>assign\<close> and \<^verbatim>\<open>path\<close> are pointers; the two functions of the source file
  that build a mutator, \<^verbatim>\<open>MutatorForAssign\<close> and \<^verbatim>\<open>DeepCopy\<close>, never leave them nil,
  and the record holds what they point to.
\<close>

record ('id, 'match) AssignMutator =
  id' :: 'id
  assign :: "'match Assign"
  path :: Path
  bindings :: "SchemaBinding slice"

subsection \<open>Validation\<close>

definition hasMetadataRoot :: "Path \<Rightarrow> bool" where
  "hasMetadataRoot p =
     (if length (elems (Nodes p)) = 0 then False
      else if elems (Nodes p) ! 0 = Object ''metadata'' then True
      else False)"

definition checkKeyNotChanged :: "Path \<Rightarrow> error option" where
  "checkKeyNotChanged p =
     (if length (elems (Nodes p)) = 0 \<or> Nodes p = NilSlice then Some (New ''empty path'')
      else if length (elems (Nodes p)) < 2 then None
      else
        let lastNode = elems (Nodes p) ! (length (elems (Nodes p)) - 1);
            secondLastNode = elems (Nodes p) ! (length (elems (Nodes p)) - 2)
        in if Type secondLastNode \<noteq> ListNode then None
           else if Type lastNode \<noteq> ObjectNode then
             Some (New ''invalid path format: child of a list can't be a list'')
           else if Reference lastNode = KeyField secondLastNode then
             Some (New ''invalid path format: changing the item key is not allowed'')
           else None)"

text \<open>
  \<^verbatim>\<open>valueMap[k]\<close> on a Go map yields the zero value, the nil interface, for a key that
  is absent.
\<close>

definition mapIndex :: "(string \<times> val) list \<Rightarrow> string \<Rightarrow> val" where
  "mapIndex m k = (case map_of m k of None \<Rightarrow> VNil | Some v \<Rightarrow> v)"

definition validateObjectAssignedToList :: "Path \<Rightarrow> val \<Rightarrow> error option" where
  "validateObjectAssignedToList p v =
     (if length (elems (Nodes p)) = 0 \<or> Nodes p = NilSlice then Some (New ''empty path'')
      else
        let listNode = elems (Nodes p) ! (length (elems (Nodes p)) - 1)
        in if Type listNode \<noteq> ListNode then None
           else if Glob listNode then Some (New ''can't append to a globbed list'')
           else (case KeyValue listNode of
               None \<Rightarrow> Some (New ''invalid key value for a non globbed object'')
             | Some keyValue \<Rightarrow>
                (case v of
                   VMap valueMap \<Rightarrow>
                     if VString keyValue \<noteq> mapIndex valueMap (KeyField listNode) then
                       Some (Errorf
                         ''adding object to list with different key %s: list key %s, object key %s''
                         [VString (KeyField listNode), VString keyValue,
                          mapIndex valueMap (KeyField listNode)])
                     else None
                 | _ \<Rightarrow> Some (New ''only full objects can be appended to lists''))))"

text \<open>
  \<^verbatim>\<open>json.Unmarshal(raw, &toAssign)\<close> with \<^verbatim>\<open>toAssign\<close> a \<^verbatim>\<open>map[string]interface{}\<close>:
  \<open>decode\<close> is encoding/json's reading of the bytes (an error for malformed input). A
  JSON object fills the map, JSON null sets the map to nil (no error, no keys), and any
  other JSON value is an \<^verbatim>\<open>UnmarshalTypeError\<close>.
\<close>

definition unmarshalMap ::
  "(string \<Rightarrow> error + val) \<Rightarrow> string \<Rightarrow> error + (string \<times> val) list" where
  "unmarshalMap decode raw =
     (case decode raw of
        Inl e \<Rightarrow> Inl e
      | Inr (VMap m) \<Rightarrow> Inr m
      | Inr VNil \<Rightarrow> Inr []
      | Inr _ \<Rightarrow> Inl (External ''json: cannot unmarshal into Go value of type map[string]interface {}''))"

text \<open>
  \<open>Parse\<close> is \<^verbatim>\<open>parser.Parse\<close> and \<open>decode\<close> is encoding/json; both are passed in.
  The decoder is given the bytes of the payload, \<^verbatim>\<open>[]byte(raw)\<close>, which are none for a
  nil slice. The result is the returned \<^verbatim>\<open>error\<close>: \<open>None\<close> is nil, the declaration is
  accepted.
\<close>

definition IsValidAssign ::
  "(string \<Rightarrow> error + Path) \<Rightarrow> (string \<Rightarrow> error + val) \<Rightarrow> 'match Assign \<Rightarrow> error option" where
  "IsValidAssign Parse decode a =
     (case Parse (Location (Spec a)) of
        Inl err \<Rightarrow> Some (Wrap err ''invalid location format'')
      | Inr p \<Rightarrow>
          if hasMetadataRoot p then Some (New ''assign can't change metadata'')
          else (case checkKeyNotChanged p of
              Some err \<Rightarrow> Some err
            | None \<Rightarrow>
               (case unmarshalMap decode (elems (Parameters (Spec a))) of
                  Inl err \<Rightarrow> Some (Wrap err ''invalid format for parameters.assign'')
                | Inr toAssign \<Rightarrow>
                   (case map_of toAssign ''value'' of
                      None \<Rightarrow> Some (New ''spec.parameters.assign must have a value field'')
                    | Some v \<Rightarrow> validateObjectAssignedToList p v))))"

subsection \<open>The mutator's methods\<close>

text \<open>
  \<open>pkgMatches\<close> is the package's function \<^verbatim>\<open>Matches(match, obj, ns)\<close>, defined outside
  the source file. \<^verbatim>\<open>log.Error\<close> appends to the log, which is passed through explicitly: an
  entry is the error, the message and the key/value pairs.
\<close>

type_synonym logEntry = "error \<times> string \<times> (string \<times> string) list"

definition Matches ::
  "('match \<Rightarrow> 'obj \<Rightarrow> 'ns \<Rightarrow> error + bool) \<Rightarrow> ('id, 'match) AssignMutator \<Rightarrow> 'obj \<Rightarrow> 'ns \<Rightarrow>
   logEntry list \<Rightarrow> bool \<times> logEntry list" where
  "Matches pkgMatches m obj ns log =
     (case pkgMatches (Match (Spec (assign m))) obj ns of
        Inl err \<Rightarrow>
          (False, log @ [(err, ''AssignMutator.Matches failed'', [(''assign'', Name (assign m))])])
      | Inr matches \<Rightarrow> (matches, log))"

text \<open>
  \<^verbatim>\<open>cmp.Equal\<close> compares by walking the two values. Two slices are equal when both are
  nil, or both are non-nil, as long as each other and equal element by element. Two
  pointers are equal when both are nil, or both are non-nil and what they point to is
  equal. Two interface values are equal when they hold the same type and equal values.
  Two structs are equal when every field is equal. Strings and booleans are compared as
  they are. The match criteria and the identity are opaque here, and comparing them is
  comparing their values.
\<close>

fun cmpEqualElems :: "('a \<Rightarrow> 'a \<Rightarrow> bool) \<Rightarrow> 'a list \<Rightarrow> 'a list \<Rightarrow> bool" where
  "cmpEqualElems eq [] [] = True"
| "cmpEqualElems eq (x # xs) (y # ys) = (eq x y \<and> cmpEqualElems eq xs ys)"
| "cmpEqualElems eq [] (y # ys) = False"
| "cmpEqualElems eq (x # xs) [] = False"

fun cmpEqualSlice :: "('a \<Rightarrow> 'a \<Rightarrow> bool) \<Rightarrow> 'a slice \<Rightarrow> 'a slice \<Rightarrow> bool" where
  "cmpEqualSlice eq NilSlice NilSlice = True"
| "cmpEqualSlice eq (Slice xs) (Slice ys) = cmpEqualElems eq xs ys"
| "cmpEqualSlice eq NilSlice (Slice ys) = False"
| "cmpEqualSlice eq (Slice xs) NilSlice = False"

fun cmpEqualPointer :: "('a \<Rightarrow> 'a \<Rightarrow> bool) \<Rightarrow> 'a option \<Rightarrow> 'a option \<Rightarrow> bool" where
  "cmpEqualPointer eq None None = True"
| "cmpEqualPointer eq (Some x) (Some y) = eq x y"
| "cmpEqualPointer eq None (Some y) = False"
| "cmpEqualPointer eq (Some x) None = False"

fun cmpEqualNode :: "Node \<Rightarrow> Node \<Rightarrow> bool" where
  "cmpEqualNode (Object r) (Object r') = (r = r')"
| "cmpEqualNode (List kf kv g) (List kf' kv' g') =
     (kf = kf' \<and> cmpEqualPointer (=) kv kv' \<and> g = g')"
| "cmpEqualNode (Object r) (List kf kv g) = False"
| "cmpEqualNode (List kf kv g) (Object r) = False"

definition cmpEqualPath :: "Path \<Rightarrow> Path \<Rightarrow> bool" where
  "cmpEqualPath p q = cmpEqualSlice cmpEqualNode (Nodes p) (Nodes q)"

definition cmpEqualSchemaBinding :: "SchemaBinding \<Rightarrow> SchemaBinding \<Rightarrow> bool" where
  "cmpEqualSchemaBinding b c =
     (cmpEqualSlice (=) (BGroups b) (BGroups c)
      \<and> cmpEqualSlice (=) (BKinds b) (BKinds c)
      \<and> cmpEqualSlice (=) (BVersions b) (BVersions c))"

definition cmpEqualApplyTo :: "ApplyTo \<Rightarrow> ApplyTo \<Rightarrow> bool" where
  "cmpEqualApplyTo t u =
     (cmpEqualSlice (=) (Groups t) (Groups u)
      \<and> cmpEqualSlice (=) (Kinds t) (Kinds u)
      \<and> cmpEqualSlice (=) (Versions t) (Versions u))"

definition cmpEqualSpec :: "'match AssignSpec \<Rightarrow> 'match AssignSpec \<Rightarrow> bool" where
  "cmpEqualSpec x y =
     (cmpEqualSlice cmpEqualApplyTo (ApplyTo x) (ApplyTo y)
      \<and> Match x = Match y
      \<and> Location x = Location y
      \<and> cmpEqualSlice (=) (Parameters x) (Parameters y))"

text \<open>
  \<^verbatim>\<open>HasDiff\<close> takes any \<^verbatim>\<open>Mutator\<close>; the type assertion \<^verbatim>\<open>mutator.(*AssignMutator)\<close>
  separates the mutators of this kind from all others.
\<close>

datatype ('id, 'match, 'other) Mutator =
    IsAssignMutator "('id, 'match) AssignMutator"
  | OtherMutator 'other

fun HasDiff :: "('id, 'match) AssignMutator \<Rightarrow> ('id, 'match, 'other) Mutator \<Rightarrow> bool" where
  "HasDiff m (OtherMutator x) = True"
| "HasDiff m (IsAssignMutator toCheck) =
     (if \<not> (id' toCheck = id' m) then True
      else if \<not> cmpEqualPath (path toCheck) (path m) then True
      else if \<not> cmpEqualSlice cmpEqualSchemaBinding (bindings toCheck) (bindings m) then True
      else if \<not> cmpEqualSpec (Spec (assign toCheck)) (Spec (assign m)) then True
      else False)"

subsection \<open>Construction\<close>

text \<open>
  \<^verbatim>\<open>for i, g := range src { dst[i] = g }\<close> into a slice made with the length of
  \<open>src\<close>; \<open>rangeAssign i\<close> is the loop from index \<open>i\<close> on. A slice that \<^verbatim>\<open>make\<close>
  returns is not nil, whatever its length, and neither is \<^verbatim>\<open>[]SchemaBinding{}\<close>.
\<close>

fun rangeAssign :: "nat \<Rightarrow> string list \<Rightarrow> string list \<Rightarrow> string list" where
  "rangeAssign i [] dst = dst"
| "rangeAssign i (g # gs) dst = rangeAssign (Suc i) gs (dst[i := g])"

definition makeAndFill :: "string slice \<Rightarrow> string slice" where
  "makeAndFill src =
     Slice (rangeAssign 0 (elems src) (replicate (length (elems src)) []))"

fun applyToToBindingsLoop :: "SchemaBinding list \<Rightarrow> ApplyTo list \<Rightarrow> SchemaBinding list" where
  "applyToToBindingsLoop res [] = res"
| "applyToToBindingsLoop res (applyTo # applyTos) =
     applyToToBindingsLoop
       (res @ [\<lparr>BGroups = makeAndFill (Groups applyTo),
                BKinds = makeAndFill (Kinds applyTo),
                BVersions = makeAndFill (Versions applyTo)\<rparr>])
       applyTos"

definition applyToToBindings :: "ApplyTo slice \<Rightarrow> SchemaBinding slice" where
  "applyToToBindings applyTos = Slice (applyToToBindingsLoop [] (elems applyTos))"

text \<open>
  \<open>MakeID\<close> and \<open>Parse\<close> are defined outside the source file. As a value, the deep copy of
  the declaration is the declaration.
\<close>

definition MutatorForAssign ::
  "('match Assign \<Rightarrow> error + 'id) \<Rightarrow> (string \<Rightarrow> error + Path) \<Rightarrow> 'match Assign \<Rightarrow>
   error + ('id, 'match) AssignMutator" where
  "MutatorForAssign MakeID Parse a =
     (case MakeID a of
        Inl err \<Rightarrow> Inl (Wrap err ''Failed to retrieve id for assign type'')
      | Inr i \<Rightarrow>
         (case Parse (Location (Spec a)) of
            Inl err \<Rightarrow> Inl (Wrap err ''Failed to parse the location specified'')
          | Inr p \<Rightarrow>
              Inr \<lparr>id' = i, assign = a, path = p,
                   bindings = applyToToBindings (ApplyTo (Spec a))\<rparr>))"

subsection \<open>The store: what DeepCopy shares\<close>

text \<open>
  The mutator holds pointers and slices, so copying it is a matter of addresses. A store
  maps an address to the object allocated there; \<open>None\<close> as a pointer or slice is nil.
  A slice is the address of its backing array (the source never reslices, so the length
  of a slice is the length of its array). The elements of a \<^verbatim>\<open>[]parser.Node\<close> are
  interface values holding a \<^verbatim>\<open>*parser.Object\<close> or a \<^verbatim>\<open>*parser.List\<close>; a
  \<^verbatim>\<open>SchemaBinding\<close> in memory is three \<^verbatim>\<open>[]string\<close> slice headers. Strings and the
  \<^verbatim>\<open>ID\<close> are immutable values. Every function returns \<open>None\<close> where the Go code
  panics (a nil dereference, an index out of range, a failed type assertion).
\<close>

type_synonym addr = nat

record BindingHdr =
  GroupsAt :: "addr option"
  KindsAt :: "addr option"
  VersionsAt :: "addr option"

record 'id MutatorObj =
  idOf :: 'id
  assignAt :: "addr option"
  pathAt :: "addr option"
  bindingsAt :: "addr option"

datatype ('id, 'match) cell =
    AssignCell "'match Assign"
  | PathCell "addr option"
  | NodeArrayCell "addr option list"
  | NodeCell Node
  | BindingArrayCell "BindingHdr list"
  | StringArrayCell "string list"
  | MutatorCell "'id MutatorObj"

record ('id, 'match) store =
  cells :: "addr \<Rightarrow> ('id, 'match) cell option"
  nextAddr :: addr

definition new :: "('id, 'match) store \<Rightarrow> ('id, 'match) cell \<Rightarrow> addr \<times> ('id, 'match) store" where
  "new s c = (nextAddr s, s\<lparr>cells := (cells s)(nextAddr s \<mapsto> c), nextAddr := Suc (nextAddr s)\<rparr>)"

definition loadMutator :: "('id, 'match) store \<Rightarrow> addr \<Rightarrow> 'id MutatorObj option" where
  "loadMutator s a = (case cells s a of Some (MutatorCell mu) \<Rightarrow> Some mu | _ \<Rightarrow> None)"

definition loadNodes :: "('id, 'match) store \<Rightarrow> addr option \<Rightarrow> addr option option" where
  "loadNodes s p =
     (case p of
        None \<Rightarrow> None
      | Some a \<Rightarrow> (case cells s a of Some (PathCell hdr) \<Rightarrow> Some hdr | _ \<Rightarrow> None))"

definition loadNodeArray :: "('id, 'match) store \<Rightarrow> addr option \<Rightarrow> addr option list option" where
  "loadNodeArray s hdr =
     (case hdr of
        None \<Rightarrow> Some []
      | Some a \<Rightarrow> (case cells s a of Some (NodeArrayCell xs) \<Rightarrow> Some xs | _ \<Rightarrow> None))"

definition loadBindingArray :: "('id, 'match) store \<Rightarrow> addr option \<Rightarrow> BindingHdr list option" where
  "loadBindingArray s hdr =
     (case hdr of
        None \<Rightarrow> Some []
      | Some a \<Rightarrow> (case cells s a of Some (BindingArrayCell xs) \<Rightarrow> Some xs | _ \<Rightarrow> None))"

definition loadStringArray :: "('id, 'match) store \<Rightarrow> addr option \<Rightarrow> string list option" where
  "loadStringArray s hdr =
     (case hdr of
        None \<Rightarrow> Some []
      | Some a \<Rightarrow> (case cells s a of Some (StringArrayCell xs) \<Rightarrow> Some xs | _ \<Rightarrow> None))"

text \<open>Writing the elements of a slice back; a nil slice has no element to write.\<close>

definition storeArray ::
  "('id, 'match) store \<Rightarrow> addr option \<Rightarrow> ('id, 'match) cell \<Rightarrow> ('id, 'match) store" where
  "storeArray s hdr c = (case hdr of None \<Rightarrow> s | Some a \<Rightarrow> s\<lparr>cells := (cells s)(a \<mapsto> c)\<rparr>)"

text \<open>The builtin \<^verbatim>\<open>copy(dst, src)\<close> on the elements: the shorter length decides.\<close>

definition copyElems :: "'a list \<Rightarrow> 'a list \<Rightarrow> 'a list" where
  "copyElems dst src =
     take (min (length dst) (length src)) src @ drop (min (length dst) (length src)) dst"

text \<open>
  \<^verbatim>\<open>m.assign.DeepCopy()\<close> is generated code outside the source file. A declaration is kept as
  one cell holding its whole value; its deep copy is a fresh cell with the same value,
  and nil for a nil receiver.
\<close>

definition DeepCopyAssign ::
  "('id, 'match) store \<Rightarrow> addr option \<Rightarrow> (addr option \<times> ('id, 'match) store) option" where
  "DeepCopyAssign s a =
     (case a of
        None \<Rightarrow> Some (None, s)
      | Some x \<Rightarrow>
         (case cells s x of
            Some (AssignCell v) \<Rightarrow> (let (y, s') = new s (AssignCell v) in Some (Some y, s'))
          | _ \<Rightarrow> None))"

definition copyNodes ::
  "('id, 'match) store \<Rightarrow> addr \<Rightarrow> addr \<Rightarrow> ('id, 'match) store option" where
  "copyNodes s res m = do {
     r \<leftarrow> loadMutator s res;
     dstHdr \<leftarrow> loadNodes s (pathAt r);
     dst \<leftarrow> loadNodeArray s dstHdr;
     mu \<leftarrow> loadMutator s m;
     srcHdr \<leftarrow> loadNodes s (pathAt mu);
     src \<leftarrow> loadNodeArray s srcHdr;
     Some (storeArray s dstHdr (NodeArrayCell (copyElems dst src)))
   }"

definition copyBindings ::
  "('id, 'match) store \<Rightarrow> addr \<Rightarrow> addr \<Rightarrow> ('id, 'match) store option" where
  "copyBindings s res m = do {
     r \<leftarrow> loadMutator s res;
     dst \<leftarrow> loadBindingArray s (bindingsAt r);
     mu \<leftarrow> loadMutator s m;
     src \<leftarrow> loadBindingArray s (bindingsAt mu);
     Some (storeArray s (bindingsAt r) (BindingArrayCell (copyElems dst src)))
   }"

text \<open>
  \<^verbatim>\<open>DeepCopy\<close>: the composite literal (the copied declaration, a new \<^verbatim>\<open>Path\<close> over a
  new node array of the same length, a new binding array of the same length), then
  the two \<^verbatim>\<open>copy\<close> calls. The result is the address of the new mutator.
\<close>

definition DeepCopy ::
  "('id, 'match) store \<Rightarrow> addr \<Rightarrow> (addr \<times> ('id, 'match) store) option" where
  "DeepCopy s m = do {
     mu \<leftarrow> loadMutator s m;
     (assignC, s1) \<leftarrow> DeepCopyAssign s (assignAt mu);
     srcHdr \<leftarrow> loadNodes s1 (pathAt mu);
     srcNodes \<leftarrow> loadNodeArray s1 srcHdr;
     (nodesC, s2) \<leftarrow> Some (new s1 (NodeArrayCell (replicate (length srcNodes) None)));
     (pathC, s3) \<leftarrow> Some (new s2 (PathCell (Some nodesC)));
     srcBindings \<leftarrow> loadBindingArray s3 (bindingsAt mu);
     (bindingsC, s4) \<leftarrow> Some (new s3 (BindingArrayCell
        (replicate (length srcBindings) \<lparr>GroupsAt = None, KindsAt = None, VersionsAt = None\<rparr>)));
     (res, s5) \<leftarrow> Some (new s4 (MutatorCell
        \<lparr>idOf = idOf mu, assignAt = assignC, pathAt = Some pathC, bindingsAt = Some bindingsC\<rparr>));
     s6 \<leftarrow> copyNodes s5 res m;
     s7 \<leftarrow> copyBindings s6 res m;
     Some (res, s7)
   }"

text \<open>
  Two writes a holder of a mutator can make:
  \<^verbatim>\<open>m.path.Nodes[i].(*parser.Object).Reference = r\<close> and
  \<^verbatim>\<open>m.bindings[i].Groups[j] = g\<close>.
\<close>

definition setReference ::
  "('id, 'match) store \<Rightarrow> addr \<Rightarrow> nat \<Rightarrow> string \<Rightarrow> ('id, 'match) store option" where
  "setReference s m i r = do {
     mu \<leftarrow> loadMutator s m;
     hdr \<leftarrow> loadNodes s (pathAt mu);
     ns \<leftarrow> loadNodeArray s hdr;
     a \<leftarrow> (if i < length ns then ns ! i else None);
     (case cells s a of
        Some (NodeCell (Object old)) \<Rightarrow> Some (s\<lparr>cells := (cells s)(a \<mapsto> NodeCell (Object r))\<rparr>)
      | _ \<Rightarrow> None)
   }"

definition setGroup ::
  "('id, 'match) store \<Rightarrow> addr \<Rightarrow> nat \<Rightarrow> nat \<Rightarrow> string \<Rightarrow> ('id, 'match) store option" where
  "setGroup s m i j g = do {
     mu \<leftarrow> loadMutator s m;
     bs \<leftarrow> loadBindingArray s (bindingsAt mu);
     b \<leftarrow> (if i < length bs then Some (bs ! i) else None);
     gs \<leftarrow> loadStringArray s (GroupsAt b);
     (if j < length gs then Some (storeArray s (GroupsAt b) (StringArrayCell (gs[j := g])))
      else None)
   }"

text \<open>Reading a mutator out of the store, as the value its fields denote.\<close>

definition readNode :: "('id, 'match) store \<Rightarrow> addr option \<Rightarrow> Node option" where
  "readNode s p =
     (case p of
        None \<Rightarrow> None
      | Some a \<Rightarrow> (case cells s a of Some (NodeCell n) \<Rightarrow> Some n | _ \<Rightarrow> None))"

text \<open>The slice value behind a slice header: nil for a nil header.\<close>

definition asSlice :: "addr option \<Rightarrow> 'a list \<Rightarrow> 'a slice" where
  "asSlice hdr xs = (case hdr of None \<Rightarrow> NilSlice | Some a \<Rightarrow> Slice xs)"

definition readPath :: "('id, 'match) store \<Rightarrow> addr option \<Rightarrow> Path option" where
  "readPath s p = do {
     hdr \<leftarrow> loadNodes s p;
     ptrs \<leftarrow> loadNodeArray s hdr;
     ns \<leftarrow> those (map (readNode s) ptrs);
     Some \<lparr>Nodes = asSlice hdr ns\<rparr>
   }"

definition readStrings :: "('id, 'match) store \<Rightarrow> addr option \<Rightarrow> string slice option" where
  "readStrings s hdr = map_option (asSlice hdr) (loadStringArray s hdr)"

definition readBinding :: "('id, 'match) store \<Rightarrow> BindingHdr \<Rightarrow> SchemaBinding option" where
  "readBinding s b = do {
     gs \<leftarrow> readStrings s (GroupsAt b);
     ks \<leftarrow> readStrings s (KindsAt b);
     vs \<leftarrow> readStrings s (VersionsAt b);
     Some \<lparr>BGroups = gs, BKinds = ks, BVersions = vs\<rparr>
   }"

definition loadAssign :: "('id, 'match) store \<Rightarrow> addr option \<Rightarrow> 'match Assign option" where
  "loadAssign s a =
     (case a of
        None \<Rightarrow> None
      | Some x \<Rightarrow> (case cells s x of Some (AssignCell v) \<Rightarrow> Some v | _ \<Rightarrow> None))"

definition readMutator ::
  "('id, 'match) store \<Rightarrow> addr \<Rightarrow> ('id, 'match) AssignMutator option" where
  "readMutator s m = do {
     mu \<leftarrow> loadMutator s m;
     a \<leftarrow> loadAssign s (assignAt mu);
     p \<leftarrow> readPath s (pathAt mu);
     hdrs \<leftarrow> loadBindingArray s (bindingsAt mu);
     bs \<leftarrow> those (map (readBinding s) hdrs);
     Some \<lparr>id' = idOf mu, assign = a, path = p, bindings = asSlice (bindingsAt mu) bs\<rparr>
   }"

text \<open>
  What \<^verbatim>\<open>DeepCopy\<close> does to the value of a mutator: its two slices come from
  \<^verbatim>\<open>make\<close>, so they are not nil even where the original's are.
\<close>

definition withMadeSlices :: "('id, 'match) AssignMutator \<Rightarrow> ('id, 'match) AssignMutator" where
  "withMadeSlices v =
     v\<lparr>path := \<lparr>Nodes = Slice (elems (Nodes (path v)))\<rparr>,
       bindings := Slice (elems (bindings v))\<rparr>"

text \<open>
  A store is \<open>allocated\<close> when nothing lies at or beyond the next free address, as in
  every store built by allocation. \<open>nodePointers\<close> and \<open>bindingHeaders\<close> are the
  elements of \<^verbatim>\<open>m.path.Nodes\<close> and of \<^verbatim>\<open>m.bindings\<close> as they lie in memory: the
  pointers to the node objects, and the slice headers of each binding.
\<close>

definition allocated :: "('id, 'match) store \<Rightarrow> bool" where
  "allocated s = (\<forall>a. nextAddr s \<le> a \<longrightarrow> cells s a = None)"

definition nodePointers :: "('id, 'match) store \<Rightarrow> addr \<Rightarrow> addr option list option" where
  "nodePointers s m = do {
     mu \<leftarrow> loadMutator s m;
     hdr \<leftarrow> loadNodes s (pathAt mu);
     loadNodeArray s hdr
   }"

definition bindingHeaders :: "('id, 'match) store \<Rightarrow> addr \<Rightarrow> BindingHdr list option" where
  "bindingHeaders s m = do {
     mu \<leftarrow> loadMutator s m;
     loadBindingArray s (bindingsAt mu)
   }"

subsection \<open>A parser for the examples\<close>

text \<open>
  Modelled from the spec: \<^verbatim>\<open>parser.Parse\<close> (package pkg/mutation/path/parser) is not
  in the source file. \<open>Parse_spec\<close> follows the grammar of section 4.2 of the specification: a
  location is a sequence of segments, \<^verbatim>\<open>.identifier\<close> (the dot optional for the first
  one), \<^verbatim>\<open>[]\<close> for a globbed list node, \<^verbatim>\<open>[keyField: keyValue]\<close> for a keyed one; it
  fails on the empty string, on an empty identifier, on an empty key name, on a
  bracket segment without a colon and on mismatched brackets. Blanks after the colon
  and one pair of double quotes around the key value are dropped, as in the
  specification's \<^verbatim>\<open>[name: "nginx"]\<close>. The scanner reads one character at a time; the
  state says which segment it is in, with the characters read so far in reverse.
  Every theorem about validation and construction below holds for any parser; this one
  serves the concrete examples.
\<close>

datatype scanState =
    SegStart bool
  | InIdent string
  | InKey string
  | InValue string string

definition unquote :: "string \<Rightarrow> string" where
  "unquote v =
     (let t = dropWhile (\<lambda>c. c = CHR '' '') v
      in if 2 \<le> length t \<and> hd t = CHR 0x22 \<and> last t = CHR 0x22 then butlast (tl t) else t)"

definition finishIdent :: "string \<Rightarrow> error + Node" where
  "finishIdent acc = (if acc = [] then Inl (External ''empty identifier'') else Inr (Object (rev acc)))"

definition consNode :: "error + Node \<Rightarrow> error + Node list \<Rightarrow> error + Node list" where
  "consNode n rest =
     (case n of
        Inl e \<Rightarrow> Inl e
      | Inr x \<Rightarrow> (case rest of Inl e \<Rightarrow> Inl e | Inr xs \<Rightarrow> Inr (x # xs)))"

fun scan :: "scanState \<Rightarrow> string \<Rightarrow> error + Node list" where
  "scan (SegStart first) [] = (if first then Inl (External ''empty location'') else Inr [])"
| "scan (InIdent acc) [] = consNode (finishIdent acc) (Inr [])"
| "scan (InKey acc) [] = Inl (External ''mismatched brackets'')"
| "scan (InValue k acc) [] = Inl (External ''mismatched brackets'')"
| "scan (SegStart first) (c # cs) =
     (if c = CHR ''.'' then scan (InIdent []) cs
      else if c = CHR ''['' then scan (InKey []) cs
      else if first \<and> c \<noteq> CHR '']'' then scan (InIdent [c]) cs
      else Inl (External ''unexpected character''))"
| "scan (InIdent acc) (c # cs) =
     (if c = CHR ''.'' then consNode (finishIdent acc) (scan (InIdent []) cs)
      else if c = CHR ''['' then consNode (finishIdent acc) (scan (InKey []) cs)
      else if c = CHR '']'' then Inl (External ''mismatched brackets'')
      else scan (InIdent (c # acc)) cs)"
| "scan (InKey acc) (c # cs) =
     (if c = CHR '']'' then
        (if acc = [] then consNode (Inr (List [] None True)) (scan (SegStart False) cs)
         else Inl (External ''missing colon''))
      else if c = CHR '':'' then
        (if acc = [] then Inl (External ''empty key name'') else scan (InValue (rev acc) []) cs)
      else if c = CHR ''['' then Inl (External ''mismatched brackets'')
      else scan (InKey (c # acc)) cs)"
| "scan (InValue k acc) (c # cs) =
     (if c = CHR '']'' then
        consNode (Inr (List k (Some (unquote (rev acc))) False)) (scan (SegStart False) cs)
      else if c = CHR ''['' then Inl (External ''mismatched brackets'')
      else scan (InValue k (c # acc)) cs)"

definition Parse_spec :: "string \<Rightarrow> error + Path" where
  "Parse_spec location =
     (case scan (SegStart True) location of
        Inl e \<Rightarrow> Inl e
      | Inr ns \<Rightarrow> Inr \<lparr>Nodes = Slice ns\<rparr>)"

subsection \<open>Example declarations\<close>

text \<open>
  The payloads of the examples, and what encoding/json decodes each of them to. The
  table stands for the decoder on these inputs only: any other input is answered with a
  syntax error.
\<close>

definition payloadNginx :: string where
  \<open>payloadNginx = ''{"value": {"name": "nginx", "image": "nginx:1.21"}}''\<close>

definition payloadSidecar :: string where
  \<open>payloadSidecar = ''{"value": {"name": "sidecar"}}''\<close>

definition payloadScalar :: string where
  \<open>payloadScalar = ''{"value": "nginx:1.21"}''\<close>

definition payloadNoValue :: string where
  \<open>payloadNoValue = ''{"val": true}''\<close>

definition payloadArray :: string where
  \<open>payloadArray = ''["value"]''\<close>

definition decodeExamples :: "string \<Rightarrow> error + val" where
  "decodeExamples raw =
     (if raw = payloadNginx then
        Inr (VMap [(''value'', VMap [(''name'', VString ''nginx''), (''image'', VString ''nginx:1.21'')])])
      else if raw = payloadSidecar then
        Inr (VMap [(''value'', VMap [(''name'', VString ''sidecar'')])])
      else if raw = payloadScalar then Inr (VMap [(''value'', VString ''nginx:1.21'')])
      else if raw = payloadNoValue then Inr (VMap [(''val'', VBool True)])
      else if raw = payloadArray then Inr (VSlice [VString ''value''])
      else if raw = ''null'' then Inr VNil
      else Inl (External ''invalid character looking for beginning of value''))"

text \<open>
  \<^verbatim>\<open>MakeID\<close> is outside the source file; in the examples the identity of a declaration is its
  name. A declaration of the examples applies to deployments and has no match criteria.
\<close>

definition MakeID_example :: "unit Assign \<Rightarrow> error + string" where
  "MakeID_example a = Inr (Name a)"

definition exampleAssign :: "string \<Rightarrow> string \<Rightarrow> unit Assign" where
  "exampleAssign location raw =
     \<lparr>Name = ''demo'',
      Spec = \<lparr>ApplyTo = Slice [\<lparr>Groups = Slice [''apps''], Kinds = Slice [''Deployment''],
                                Versions = Slice [''v1'']\<rparr>],
              Match = (), Location = location, Parameters = Slice raw\<rparr>\<rparr>"

text \<open>
  The memory of the mutator built from \<open>exampleAssign ''spec.replicas'' payloadScalar\<close>:
  two node objects, the node array and the path over them, the three string arrays of
  the one binding, the binding array, the stored declaration, and the mutator itself
  at address 9.
\<close>

definition exampleStore :: "(string, unit) store" where
  "exampleStore =
     \<lparr>cells =
        [0 \<mapsto> NodeCell (Object ''spec''),
         1 \<mapsto> NodeCell (Object ''replicas''),
         2 \<mapsto> NodeArrayCell [Some 0, Some 1],
         3 \<mapsto> PathCell (Some 2),
         4 \<mapsto> StringArrayCell [''apps''],
         5 \<mapsto> StringArrayCell [''Deployment''],
         6 \<mapsto> StringArrayCell [''v1''],
         7 \<mapsto> BindingArrayCell [\<lparr>GroupsAt = Some 4, KindsAt = Some 5, VersionsAt = Some 6\<rparr>],
         8 \<mapsto> AssignCell (exampleAssign ''spec.replicas'' payloadScalar),
         9 \<mapsto> MutatorCell \<lparr>idOf = ''demo'', assignAt = Some 8, pathAt = Some 3, bindingsAt = Some 7\<rparr>],
      nextAddr = 10\<rparr>"

definition exampleMutator :: addr where
  "exampleMutator = 9"

text \<open>
  The memory of a mutator whose path has no nodes and which has no bindings, both
  slices nil: the path, the stored declaration (without \<^verbatim>\<open>applyTo\<close> entries), and the
  mutator at address 2.
\<close>

definition bareStore :: "(string, unit) store" where
  "bareStore =
     \<lparr>cells =
        [0 \<mapsto> PathCell None,
         1 \<mapsto> AssignCell
               \<lparr>Name = ''bare'',
                Spec = \<lparr>ApplyTo = NilSlice, Match = (), Location = [],
                        Parameters = Slice payloadScalar\<rparr>\<rparr>,
         2 \<mapsto> MutatorCell \<lparr>idOf = ''bare'', assignAt = Some 1, pathAt = Some 0, bindingsAt = None\<rparr>],
      nextAddr = 3\<rparr>"

definition bareMutator :: addr where
  "bareMutator = 2"

section \<open>Properties\<close>

subsection \<open>Auxiliary facts\<close>

lemma rangeAssign_fill:
  "length dst = i + length gs \<Longrightarrow> rangeAssign i gs dst = take i dst @ gs"
proof (induction gs arbitrary: i dst)
  case Nil
  then show ?case by simp
next
  case (Cons g gs)
  have len: "length (dst[i := g]) = Suc i + length gs"
    using Cons.prems by simp
  have "rangeAssign i (g # gs) dst = take (Suc i) (dst[i := g]) @ gs"
    using Cons.IH [OF len] by simp
  also have "take (Suc i) (dst[i := g]) = take i dst @ [g]"
    using Cons.prems by (simp add: take_Suc_conv_app_nth)
  finally show ?case by simp
qed

lemma makeAndFill_same: "makeAndFill src = Slice (elems src)"
  by (simp add: makeAndFill_def rangeAssign_fill)

lemma applyToToBindingsLoop_map:
  "applyToToBindingsLoop res ts =
     res @ map (\<lambda>t. \<lparr>BGroups = Slice (elems (Groups t)), BKinds = Slice (elems (Kinds t)),
                       BVersions = Slice (elems (Versions t))\<rparr>) ts"
  by (induction ts arbitrary: res) (simp_all add: makeAndFill_same)

lemma applyToToBindings_map:
  "applyToToBindings ts =
     Slice (map (\<lambda>t. \<lparr>BGroups = Slice (elems (Groups t)), BKinds = Slice (elems (Kinds t)),
                          BVersions = Slice (elems (Versions t))\<rparr>) (elems ts))"
  by (simp add: applyToToBindings_def applyToToBindingsLoop_map)

lemma empty_or_nil:
  "(length (elems s) = 0 \<or> s = NilSlice) = (elems s = [])"
  "(elems s = [] \<or> s = NilSlice) = (elems s = [])"
  by (cases s; simp)+

lemma validate_on_list_node:
  assumes "elems (Nodes p) \<noteq> []" and "last (elems (Nodes p)) = List kf kv g"
  shows "validateObjectAssignedToList p v =
     (if g then Some (New ''can't append to a globbed list'')
      else case kv of
          None \<Rightarrow> Some (New ''invalid key value for a non globbed object'')
        | Some keyValue \<Rightarrow>
           (case v of
              VMap valueMap \<Rightarrow>
                if VString keyValue \<noteq> mapIndex valueMap kf then
                  Some (Errorf
                    ''adding object to list with different key %s: list key %s, object key %s''
                    [VString kf, VString keyValue, mapIndex valueMap kf])
                else None
            | _ \<Rightarrow> Some (New ''only full objects can be appended to lists'')))"
  using assms
  by (cases "Nodes p")
     (simp_all add: validateObjectAssignedToList_def last_conv_nth Let_def
           split: option.splits val.splits)

lemma validate_on_object_node:
  assumes "elems (Nodes p) \<noteq> []" and "last (elems (Nodes p)) = Object r"
  shows "validateObjectAssignedToList p v = None"
  using assms
  by (cases "Nodes p") (simp_all add: validateObjectAssignedToList_def last_conv_nth Let_def)

lemma IsValidAssign_parsed:
  assumes "Parse (Location (Spec a)) = Inr p"
  shows "IsValidAssign Parse decode a =
     (if hasMetadataRoot p then Some (New ''assign can't change metadata'')
      else case checkKeyNotChanged p of
          Some err \<Rightarrow> Some err
        | None \<Rightarrow>
           (case unmarshalMap decode (elems (Parameters (Spec a))) of
              Inl err \<Rightarrow> Some (Wrap err ''invalid format for parameters.assign'')
            | Inr toAssign \<Rightarrow>
               (case map_of toAssign ''value'' of
                  None \<Rightarrow> Some (New ''spec.parameters.assign must have a value field'')
                | Some v \<Rightarrow> validateObjectAssignedToList p v)))"
  using assms by (simp add: IsValidAssign_def)

lemma IsValidAssign_accepts_only_validated:
  assumes "Parse (Location (Spec a)) = Inr p"
      and "IsValidAssign Parse decode a = None"
  shows "\<exists>toAssign v. unmarshalMap decode (elems (Parameters (Spec a))) = Inr toAssign
           \<and> map_of toAssign ''value'' = Some v
           \<and> validateObjectAssignedToList p v = None
           \<and> \<not> hasMetadataRoot p \<and> checkKeyNotChanged p = None"
  using assms
  by (auto simp: IsValidAssign_parsed split: if_splits option.splits sum.splits)

subsection \<open>Validation of a path that ends in a list node\<close>

text \<open>
  C1. Let the location parse to a path whose last node is a List node. Then
  \<open>IsValidAssign\<close> rejects when the node is globbed; rejects when the node has no
  key value; rejects when the payload's \<open>value\<close> field is not a map; and rejects when
  the field of that map named by the node's key field differs from the node's key value,
  in which case, the earlier rules being passed, the error carries the key field, the
  list's key value and the object's key value. When the node is not globbed, has a key
  value, the metadata and key rules are passed, and the \<open>value\<close> map holds the key value
  under the key field, \<open>IsValidAssign\<close> accepts.
\<close>

theorem C1_last_node_is_list:
  assumes "Parse (Location (Spec a)) = Inr p"
      and "elems (Nodes p) \<noteq> []"
      and "last (elems (Nodes p)) = List kf kv g"
  shows "(g \<longrightarrow> IsValidAssign Parse decode a \<noteq> None)
     \<and> (kv = None \<longrightarrow> IsValidAssign Parse decode a \<noteq> None)
     \<and> (\<forall>toAssign v.
           unmarshalMap decode (elems (Parameters (Spec a))) = Inr toAssign
           \<and> map_of toAssign ''value'' = Some v \<and> (\<forall>valueMap. v \<noteq> VMap valueMap)
           \<longrightarrow> IsValidAssign Parse decode a \<noteq> None)
     \<and> (\<forall>toAssign valueMap keyValue.
           unmarshalMap decode (elems (Parameters (Spec a))) = Inr toAssign
           \<and> map_of toAssign ''value'' = Some (VMap valueMap)
           \<and> kv = Some keyValue \<and> mapIndex valueMap kf \<noteq> VString keyValue
           \<longrightarrow> IsValidAssign Parse decode a \<noteq> None
             \<and> (\<not> g \<and> \<not> hasMetadataRoot p \<and> checkKeyNotChanged p = None
                 \<longrightarrow> IsValidAssign Parse decode a =
                       Some (Errorf
                         ''adding object to list with different key %s: list key %s, object key %s''
                         [VString kf, VString keyValue, mapIndex valueMap kf])))
     \<and> (\<forall>toAssign valueMap keyValue.
           unmarshalMap decode (elems (Parameters (Spec a))) = Inr toAssign
           \<and> map_of toAssign ''value'' = Some (VMap valueMap)
           \<and> kv = Some keyValue \<and> mapIndex valueMap kf = VString keyValue
           \<and> \<not> g \<and> \<not> hasMetadataRoot p \<and> checkKeyNotChanged p = None
           \<longrightarrow> IsValidAssign Parse decode a = None)"
proof -
  note v = validate_on_list_node [OF assms(2) assms(3)]
  note i = IsValidAssign_parsed [of Parse a p decode, OF assms(1)]
  have glob: "g \<longrightarrow> IsValidAssign Parse decode a \<noteq> None"
    by (simp add: i v split: option.splits sum.splits)
  have nokey: "kv = None \<longrightarrow> IsValidAssign Parse decode a \<noteq> None"
    by (simp add: i v split: option.splits sum.splits)
  have notmap: "\<forall>toAssign v.
           unmarshalMap decode (elems (Parameters (Spec a))) = Inr toAssign
           \<and> map_of toAssign ''value'' = Some v \<and> (\<forall>valueMap. v \<noteq> VMap valueMap)
           \<longrightarrow> IsValidAssign Parse decode a \<noteq> None"
    by (auto simp: i v split: option.splits val.splits)
  have differs: "\<forall>toAssign valueMap keyValue.
           unmarshalMap decode (elems (Parameters (Spec a))) = Inr toAssign
           \<and> map_of toAssign ''value'' = Some (VMap valueMap)
           \<and> kv = Some keyValue \<and> mapIndex valueMap kf \<noteq> VString keyValue
           \<longrightarrow> IsValidAssign Parse decode a \<noteq> None
             \<and> (\<not> g \<and> \<not> hasMetadataRoot p \<and> checkKeyNotChanged p = None
                 \<longrightarrow> IsValidAssign Parse decode a =
                       Some (Errorf
                         ''adding object to list with different key %s: list key %s, object key %s''
                         [VString kf, VString keyValue, mapIndex valueMap kf]))"
    by (auto simp: i v split: option.splits)
  have same: "\<forall>toAssign valueMap keyValue.
           unmarshalMap decode (elems (Parameters (Spec a))) = Inr toAssign
           \<and> map_of toAssign ''value'' = Some (VMap valueMap)
           \<and> kv = Some keyValue \<and> mapIndex valueMap kf = VString keyValue
           \<and> \<not> g \<and> \<not> hasMetadataRoot p \<and> checkKeyNotChanged p = None
           \<longrightarrow> IsValidAssign Parse decode a = None"
    by (auto simp: i v)
  from glob nokey notmap differs same show ?thesis by blast
qed

theorem C1_last_node_is_list_witness:
  "IsValidAssign Parse_spec decodeExamples
     (exampleAssign ''spec.containers[]'' payloadNginx) \<noteq> None
   \<and> IsValidAssign Parse_spec decodeExamples
     (exampleAssign ''spec.containers[name: nginx]'' payloadScalar) \<noteq> None
   \<and> IsValidAssign Parse_spec decodeExamples
     (exampleAssign ''spec.containers[name: nginx]'' payloadSidecar) =
       Some (Errorf ''adding object to list with different key %s: list key %s, object key %s''
         [VString ''name'', VString ''nginx'', VString ''sidecar''])
   \<and> IsValidAssign Parse_spec decodeExamples
     (exampleAssign ''spec.containers[name: nginx]'' payloadNginx) = None"
proof -
  let ?globbed = "\<lparr>Nodes = Slice [Object ''spec'', Object ''containers'', List [] None True]\<rparr>"
  let ?keyed =
    "\<lparr>Nodes = Slice [Object ''spec'', Object ''containers'', List ''name'' (Some ''nginx'') False]\<rparr>"
  have parse_globbed: "Parse_spec ''spec.containers[]'' = Inr ?globbed"
    by (simp add: Parse_spec_def consNode_def finishIdent_def)
  have parse_keyed: "Parse_spec ''spec.containers[name: nginx]'' = Inr ?keyed"
    by (simp add: Parse_spec_def consNode_def finishIdent_def unquote_def)
  have rules: "\<not> hasMetadataRoot ?keyed" "checkKeyNotChanged ?keyed = None"
    by (simp_all add: hasMetadataRoot_def checkKeyNotChanged_def)
  have glob: "IsValidAssign Parse_spec decodeExamples
     (exampleAssign ''spec.containers[]'' payloadNginx) \<noteq> None"
    using C1_last_node_is_list [where Parse = Parse_spec and decode = decodeExamples
        and a = "exampleAssign ''spec.containers[]'' payloadNginx"
        and p = ?globbed and kf = "[]" and kv = None and g = True]
    by (simp add: exampleAssign_def parse_globbed)
  have scalar: "IsValidAssign Parse_spec decodeExamples
     (exampleAssign ''spec.containers[name: nginx]'' payloadScalar) \<noteq> None"
    using C1_last_node_is_list [where Parse = Parse_spec and decode = decodeExamples
        and a = "exampleAssign ''spec.containers[name: nginx]'' payloadScalar"
        and p = ?keyed and kf = "''name''" and kv = "Some ''nginx''" and g = False]
    by (simp add: exampleAssign_def parse_keyed unmarshalMap_def decodeExamples_def
          payloadScalar_def payloadNginx_def payloadSidecar_def)
  have sidecar: "IsValidAssign Parse_spec decodeExamples
     (exampleAssign ''spec.containers[name: nginx]'' payloadSidecar) =
       Some (Errorf ''adding object to list with different key %s: list key %s, object key %s''
         [VString ''name'', VString ''nginx'', VString ''sidecar''])"
    using rules C1_last_node_is_list [where Parse = Parse_spec and decode = decodeExamples
        and a = "exampleAssign ''spec.containers[name: nginx]'' payloadSidecar"
        and p = ?keyed and kf = "''name''" and kv = "Some ''nginx''" and g = False]
    by (simp add: exampleAssign_def parse_keyed unmarshalMap_def decodeExamples_def
          payloadNginx_def payloadSidecar_def mapIndex_def)
  have nginx: "IsValidAssign Parse_spec decodeExamples
     (exampleAssign ''spec.containers[name: nginx]'' payloadNginx) = None"
    using rules C1_last_node_is_list [where Parse = Parse_spec and decode = decodeExamples
        and a = "exampleAssign ''spec.containers[name: nginx]'' payloadNginx"
        and p = ?keyed and kf = "''name''" and kv = "Some ''nginx''" and g = False]
    by (simp add: exampleAssign_def parse_keyed unmarshalMap_def decodeExamples_def
          payloadNginx_def mapIndex_def)
  from glob scalar sidecar nginx show ?thesis by blast
qed

subsection \<open>The key of a list element cannot be changed\<close>

text \<open>
  C2. Let the location parse to a path of at least two nodes. If the second-to-last
  node is a List node, \<open>IsValidAssign\<close> rejects when the last node is an Object node
  whose reference is the List node's key field, and rejects when the last node is not
  an Object node; \<open>checkKeyNotChanged\<close> returns the matching error in each case. If the
  second-to-last node is not a List node, \<open>checkKeyNotChanged\<close> returns no error.
\<close>

theorem C2_child_of_list_node:
  assumes "Parse (Location (Spec a)) = Inr p"
      and "2 \<le> length (elems (Nodes p))"
  shows "(\<forall>kf kv g. elems (Nodes p) ! (length (elems (Nodes p)) - 2) = List kf kv g \<longrightarrow>
            (last (elems (Nodes p)) = Object kf \<longrightarrow>
               checkKeyNotChanged p =
                 Some (New ''invalid path format: changing the item key is not allowed'')
               \<and> IsValidAssign Parse decode a \<noteq> None)
          \<and> (Type (last (elems (Nodes p))) \<noteq> ObjectNode \<longrightarrow>
               checkKeyNotChanged p =
                 Some (New ''invalid path format: child of a list can't be a list'')
               \<and> IsValidAssign Parse decode a \<noteq> None))
     \<and> (Type (elems (Nodes p) ! (length (elems (Nodes p)) - 2)) \<noteq> ListNode \<longrightarrow> checkKeyNotChanged p = None)"
proof -
  note i = IsValidAssign_parsed [of Parse a p decode, OF assms(1)]
  have ne: "elems (Nodes p) \<noteq> []" using assms(2) by auto
  have l: "elems (Nodes p) ! (length (elems (Nodes p)) - 1) = last (elems (Nodes p))"
    using ne by (simp add: last_conv_nth)
  have c: "checkKeyNotChanged p =
     (if Type (elems (Nodes p) ! (length (elems (Nodes p)) - 2)) \<noteq> ListNode then None
      else if Type (last (elems (Nodes p))) \<noteq> ObjectNode then
        Some (New ''invalid path format: child of a list can't be a list'')
      else if Reference (last (elems (Nodes p))) = KeyField (elems (Nodes p) ! (length (elems (Nodes p)) - 2)) then
        Some (New ''invalid path format: changing the item key is not allowed'')
      else None)"
    using assms(2) ne unfolding checkKeyNotChanged_def empty_or_nil l Let_def by simp
  have key: "\<forall>kf kv g. elems (Nodes p) ! (length (elems (Nodes p)) - 2) = List kf kv g \<longrightarrow>
            (last (elems (Nodes p)) = Object kf \<longrightarrow>
               checkKeyNotChanged p =
                 Some (New ''invalid path format: changing the item key is not allowed'')
               \<and> IsValidAssign Parse decode a \<noteq> None)"
    by (auto simp: c i)
  have nested: "\<forall>kf kv g. elems (Nodes p) ! (length (elems (Nodes p)) - 2) = List kf kv g \<longrightarrow>
            (Type (last (elems (Nodes p))) \<noteq> ObjectNode \<longrightarrow>
               checkKeyNotChanged p =
                 Some (New ''invalid path format: child of a list can't be a list'')
               \<and> IsValidAssign Parse decode a \<noteq> None)"
    by (auto simp: c i)
  have free: "Type (elems (Nodes p) ! (length (elems (Nodes p)) - 2)) \<noteq> ListNode \<longrightarrow> checkKeyNotChanged p = None"
    by (simp add: c)
  from key nested free show ?thesis by blast
qed

theorem C2_child_of_list_node_witness:
  "IsValidAssign Parse_spec decodeExamples
     (exampleAssign ''spec.containers[name: nginx].name'' payloadScalar) \<noteq> None
   \<and> IsValidAssign Parse_spec decodeExamples
     (exampleAssign ''spec.containers[name: nginx][port: http]'' payloadNginx) \<noteq> None
   \<and> checkKeyNotChanged \<lparr>Nodes = Slice [Object ''spec'', Object ''replicas'']\<rparr> = None"
proof -
  let ?key = "\<lparr>Nodes = Slice [Object ''spec'', Object ''containers'',
                 List ''name'' (Some ''nginx'') False, Object ''name'']\<rparr>"
  let ?nested = "\<lparr>Nodes = Slice [Object ''spec'', Object ''containers'',
                 List ''name'' (Some ''nginx'') False, List ''port'' (Some ''http'') False]\<rparr>"
  let ?plain = "\<lparr>Nodes = Slice [Object ''spec'', Object ''replicas'']\<rparr>"
  have parse_key: "Parse_spec ''spec.containers[name: nginx].name'' = Inr ?key"
    by (simp add: Parse_spec_def consNode_def finishIdent_def unquote_def)
  have parse_nested: "Parse_spec ''spec.containers[name: nginx][port: http]'' = Inr ?nested"
    by (simp add: Parse_spec_def consNode_def finishIdent_def unquote_def)
  have parse_plain: "Parse_spec ''spec.replicas'' = Inr ?plain"
    by (simp add: Parse_spec_def consNode_def finishIdent_def)
  have key: "IsValidAssign Parse_spec decodeExamples
     (exampleAssign ''spec.containers[name: nginx].name'' payloadScalar) \<noteq> None"
    using C2_child_of_list_node [where Parse = Parse_spec and decode = decodeExamples
        and a = "exampleAssign ''spec.containers[name: nginx].name'' payloadScalar" and p = ?key]
    by (auto simp: exampleAssign_def parse_key)
  have nested: "IsValidAssign Parse_spec decodeExamples
     (exampleAssign ''spec.containers[name: nginx][port: http]'' payloadNginx) \<noteq> None"
    using C2_child_of_list_node [where Parse = Parse_spec and decode = decodeExamples
        and a = "exampleAssign ''spec.containers[name: nginx][port: http]'' payloadNginx"
        and p = ?nested]
    by (auto simp: exampleAssign_def parse_nested)
  have plain: "checkKeyNotChanged ?plain = None"
    using C2_child_of_list_node [where Parse = Parse_spec and decode = decodeExamples
        and a = "exampleAssign ''spec.replicas'' payloadScalar" and p = ?plain]
    by (auto simp: exampleAssign_def parse_plain)
  from key nested plain show ?thesis by blast
qed

subsection \<open>Metadata cannot be the root\<close>

text \<open>
  C3. If the location parses to a path whose first node is the Object node with
  reference \<open>metadata\<close>, \<open>IsValidAssign\<close> rejects with "assign can't change metadata",
  whatever the payload and the decoder.
\<close>

theorem C3_metadata_root_rejected:
  assumes "Parse (Location (Spec a)) = Inr p"
      and "elems (Nodes p) \<noteq> []"
      and "hd (elems (Nodes p)) = Object ''metadata''"
  shows "IsValidAssign Parse decode a = Some (New ''assign can't change metadata'')"
proof -
  have "hasMetadataRoot p"
    using assms(2,3) by (simp add: hasMetadataRoot_def hd_conv_nth)
  then show ?thesis
    by (simp add: IsValidAssign_parsed [of Parse a p decode, OF assms(1)])
qed

theorem C3_metadata_root_rejected_witness:
  "IsValidAssign Parse_spec decodeExamples (exampleAssign ''metadata.labels.team'' payloadScalar) =
     Some (New ''assign can't change metadata'')"
proof -
  let ?p = "\<lparr>Nodes = Slice [Object ''metadata'', Object ''labels'', Object ''team'']\<rparr>"
  have parse: "Parse_spec (Location (Spec (exampleAssign ''metadata.labels.team'' payloadScalar))) =
      Inr ?p"
    by (simp add: exampleAssign_def Parse_spec_def consNode_def finishIdent_def)
  have nonempty: "elems (Nodes ?p) \<noteq> []" by simp
  have root: "hd (elems (Nodes ?p)) = Object ''metadata''" by simp
  show ?thesis
    using C3_metadata_root_rejected [of Parse_spec _ ?p decodeExamples, OF parse nonempty root] .
qed

subsection \<open>The shape of the payload\<close>

text \<open>
  C4. \<open>IsValidAssign\<close> rejects every declaration whose payload does not decode, decodes
  to something that is not a map, or decodes to a map without a \<open>value\<close> field. When
  the path rules are passed and the payload is a map with a \<open>value\<close> field, the result
  of \<open>IsValidAssign\<close> is the result of the list rule on the path and that field.
\<close>

theorem C4_value_field_required:
  "((\<exists>e. decode (elems (Parameters (Spec a))) = Inl e)
      \<or> (\<exists>v. decode (elems (Parameters (Spec a))) = Inr v \<and> (\<forall>m. v \<noteq> VMap m))
      \<or> (\<exists>m. decode (elems (Parameters (Spec a))) = Inr (VMap m) \<and> map_of m ''value'' = None)
     \<longrightarrow> IsValidAssign Parse decode a \<noteq> None)
   \<and> (\<forall>p m v. Parse (Location (Spec a)) = Inr p
         \<and> \<not> hasMetadataRoot p \<and> checkKeyNotChanged p = None
         \<and> decode (elems (Parameters (Spec a))) = Inr (VMap m) \<and> map_of m ''value'' = Some v
        \<longrightarrow> IsValidAssign Parse decode a = validateObjectAssignedToList p v)"
proof -
  have undecodable: "IsValidAssign Parse decode a \<noteq> None"
    if "decode (elems (Parameters (Spec a))) = Inl e" for e
    using that
    by (simp add: IsValidAssign_def unmarshalMap_def split: sum.splits option.splits)
  have not_a_map: "IsValidAssign Parse decode a \<noteq> None"
    if "decode (elems (Parameters (Spec a))) = Inr v" and "\<forall>m. v \<noteq> VMap m" for v
    using that
    by (cases v) (simp_all add: IsValidAssign_def unmarshalMap_def split: sum.splits option.splits)
  have no_value: "IsValidAssign Parse decode a \<noteq> None"
    if "decode (elems (Parameters (Spec a))) = Inr (VMap m)" and "map_of m ''value'' = None" for m
    using that
    by (simp add: IsValidAssign_def unmarshalMap_def split: sum.splits option.splits)
  have extracted: "IsValidAssign Parse decode a = validateObjectAssignedToList p v"
    if "Parse (Location (Spec a)) = Inr p" and "\<not> hasMetadataRoot p"
      and "checkKeyNotChanged p = None"
      and "decode (elems (Parameters (Spec a))) = Inr (VMap m)" and "map_of m ''value'' = Some v"
    for p m v
    using that by (simp add: IsValidAssign_def unmarshalMap_def)
  from undecodable not_a_map no_value extracted show ?thesis by blast
qed

theorem C4_value_field_required_witness:
  "IsValidAssign Parse_spec decodeExamples (exampleAssign ''spec.replicas'' ''{'') \<noteq> None
   \<and> IsValidAssign Parse_spec decodeExamples (exampleAssign ''spec.replicas'' payloadArray) \<noteq> None
   \<and> IsValidAssign Parse_spec decodeExamples (exampleAssign ''spec.replicas'' ''null'') \<noteq> None
   \<and> IsValidAssign Parse_spec decodeExamples (exampleAssign ''spec.replicas'' payloadNoValue) \<noteq> None
   \<and> IsValidAssign Parse_spec decodeExamples (exampleAssign ''spec.replicas'' payloadScalar) =
       validateObjectAssignedToList \<lparr>Nodes = Slice [Object ''spec'', Object ''replicas'']\<rparr>
         (VString ''nginx:1.21'')"
proof -
  let ?p = "\<lparr>Nodes = Slice [Object ''spec'', Object ''replicas'']\<rparr>"
  note payloads = payloadNginx_def payloadSidecar_def payloadScalar_def payloadNoValue_def
    payloadArray_def
  have parse: "Parse_spec ''spec.replicas'' = Inr ?p"
    by (simp add: Parse_spec_def consNode_def finishIdent_def)
  have rules: "\<not> hasMetadataRoot ?p" "checkKeyNotChanged ?p = None"
    by (simp_all add: hasMetadataRoot_def checkKeyNotChanged_def)
  have malformed: "IsValidAssign Parse_spec decodeExamples (exampleAssign ''spec.replicas'' ''{'') \<noteq> None"
    using C4_value_field_required [of decodeExamples "exampleAssign ''spec.replicas'' ''{''" Parse_spec]
    by (simp add: exampleAssign_def decodeExamples_def payloads)
  have array: "IsValidAssign Parse_spec decodeExamples (exampleAssign ''spec.replicas'' payloadArray) \<noteq> None"
    using C4_value_field_required [of decodeExamples "exampleAssign ''spec.replicas'' payloadArray" Parse_spec]
    by (simp add: exampleAssign_def decodeExamples_def payloads)
  have null: "IsValidAssign Parse_spec decodeExamples (exampleAssign ''spec.replicas'' ''null'') \<noteq> None"
    using C4_value_field_required [of decodeExamples "exampleAssign ''spec.replicas'' ''null''" Parse_spec]
    by (simp add: exampleAssign_def decodeExamples_def payloads)
  have novalue: "IsValidAssign Parse_spec decodeExamples (exampleAssign ''spec.replicas'' payloadNoValue) \<noteq> None"
    using C4_value_field_required [of decodeExamples "exampleAssign ''spec.replicas'' payloadNoValue" Parse_spec]
    by (simp add: exampleAssign_def decodeExamples_def payloads)
  have scalar: "IsValidAssign Parse_spec decodeExamples (exampleAssign ''spec.replicas'' payloadScalar) =
       validateObjectAssignedToList ?p (VString ''nginx:1.21'')"
    using rules parse
      C4_value_field_required [of decodeExamples "exampleAssign ''spec.replicas'' payloadScalar" Parse_spec]
    by (simp add: exampleAssign_def decodeExamples_def payloads)
  from malformed array null novalue scalar show ?thesis by blast
qed

subsection \<open>The empty path\<close>

text \<open>
  C5. If the location parses to a path without nodes, \<open>IsValidAssign\<close> rejects with
  "empty path", whatever the payload; both \<open>checkKeyNotChanged\<close> and
  \<open>validateObjectAssignedToList\<close> return that error on such a path.
\<close>

theorem C5_empty_path_rejected:
  assumes "Parse (Location (Spec a)) = Inr p"
      and "elems (Nodes p) = []"
  shows "IsValidAssign Parse decode a = Some (New ''empty path'')
     \<and> checkKeyNotChanged p = Some (New ''empty path'')
     \<and> validateObjectAssignedToList p v = Some (New ''empty path'')"
  using assms(2)
  by (simp add: IsValidAssign_parsed [of Parse a p decode, OF assms(1)]
        hasMetadataRoot_def checkKeyNotChanged_def validateObjectAssignedToList_def empty_or_nil)

theorem C5_empty_path_rejected_witness:
  "IsValidAssign (\<lambda>location. Inr \<lparr>Nodes = NilSlice\<rparr>) decodeExamples (exampleAssign [] payloadScalar) =
     Some (New ''empty path'')
   \<and> checkKeyNotChanged \<lparr>Nodes = NilSlice\<rparr> = Some (New ''empty path'')
   \<and> validateObjectAssignedToList \<lparr>Nodes = NilSlice\<rparr> (VString ''nginx:1.21'') =
       Some (New ''empty path'')
   \<and> IsValidAssign (\<lambda>location. Inr \<lparr>Nodes = Slice []\<rparr>) decodeExamples
       (exampleAssign [] payloadScalar) = Some (New ''empty path'')"
proof -
  have parse_nil:
    "(\<lambda>location. Inr \<lparr>Nodes = NilSlice\<rparr>) (Location (Spec (exampleAssign [] payloadScalar))) =
      Inr \<lparr>Nodes = NilSlice\<rparr>"
    by simp
  have parse_empty:
    "(\<lambda>location. Inr \<lparr>Nodes = Slice []\<rparr>) (Location (Spec (exampleAssign [] payloadScalar))) =
      Inr \<lparr>Nodes = Slice []\<rparr>"
    by simp
  have nil: "elems (Nodes \<lparr>Nodes = NilSlice\<rparr>) = []" by simp
  have empty: "elems (Nodes \<lparr>Nodes = Slice []\<rparr>) = []" by simp
  show ?thesis
    using C5_empty_path_rejected [of "\<lambda>location. Inr \<lparr>Nodes = NilSlice\<rparr>"
        "exampleAssign [] payloadScalar" "\<lparr>Nodes = NilSlice\<rparr>" decodeExamples "VString ''nginx:1.21''",
        OF parse_nil nil]
      C5_empty_path_rejected [of "\<lambda>location. Inr \<lparr>Nodes = Slice []\<rparr>"
        "exampleAssign [] payloadScalar" "\<lparr>Nodes = Slice []\<rparr>" decodeExamples "VString ''nginx:1.21''",
        OF parse_empty empty]
    by simp
qed

subsection \<open>A failing match predicate\<close>

text \<open>
  C6. When the package's match predicate returns an error for the mutator's match
  criteria, the object and the namespace, \<open>Matches\<close> returns false, and the log gains
  exactly one entry, which carries that error and the name of the declaration.
\<close>

theorem C6_match_error_is_no_match:
  assumes "pkgMatches (Match (Spec (assign m))) obj ns = Inl err"
  shows "Matches pkgMatches m obj ns log =
     (False, log @ [(err, ''AssignMutator.Matches failed'', [(''assign'', Name (assign m))])])"
  using assms by (simp add: Matches_def)

theorem C6_match_error_is_no_match_witness:
  "Matches (\<lambda>match obj ns. Inl (External ''namespace lookup failed''))
     \<lparr>id' = ''demo'', assign = exampleAssign ''spec.replicas'' payloadScalar,
      path = \<lparr>Nodes = Slice [Object ''spec'', Object ''replicas'']\<rparr>, bindings = Slice []\<rparr>
     ''pod'' ''default'' [] =
   (False, [(External ''namespace lookup failed'', ''AssignMutator.Matches failed'',
             [(''assign'', ''demo'')])])"
proof -
  let ?m = "\<lparr>id' = ''demo'', assign = exampleAssign ''spec.replicas'' payloadScalar,
      path = \<lparr>Nodes = Slice [Object ''spec'', Object ''replicas'']\<rparr>, bindings = Slice []\<rparr>"
  let ?pred = "\<lambda>(match :: unit) (obj :: string) (ns :: string).
      (Inl (External ''namespace lookup failed'') :: error + bool)"
  have fails: "?pred (Match (Spec (assign ?m))) ''pod'' ''default'' =
      Inl (External ''namespace lookup failed'')"
    by simp
  show ?thesis
    using C6_match_error_is_no_match [of ?pred ?m "''pod''" "''default''"
        "External ''namespace lookup failed''" "[]", OF fails]
    by (simp add: exampleAssign_def)
qed

subsection \<open>Comparing two mutators\<close>

text \<open>
  The walk of \<^verbatim>\<open>cmp.Equal\<close> over two values finds them equal exactly when they are
  the same value, nil slices and nil pointers included.
\<close>

lemma cmpEqualElems_same: "cmpEqualElems (=) xs ys = (xs = ys)"
proof (induction xs arbitrary: ys)
  case Nil
  show ?case by (cases ys) simp_all
next
  case (Cons x xs)
  show ?case by (cases ys) (simp_all add: Cons.IH)
qed

lemma cmpEqualElems_eq:
  assumes "\<And>x y. eq x y = (x = y)"
  shows "cmpEqualElems eq xs ys = (xs = ys)"
proof -
  have "eq = (=)" using assms by (intro ext) simp
  then show ?thesis by (simp add: cmpEqualElems_same)
qed

lemma cmpEqualSlice_eq:
  assumes "\<And>x y. eq x y = (x = y)"
  shows "cmpEqualSlice eq s t = (s = t)"
  by (cases s; cases t) (simp_all add: cmpEqualElems_eq [OF assms])

lemma cmpEqualPointer_eq:
  assumes "\<And>x y. eq x y = (x = y)"
  shows "cmpEqualPointer eq p q = (p = q)"
  by (cases p; cases q) (simp_all add: assms)

lemma cmpEqualNode_eq: "cmpEqualNode n n' = (n = n')"
  by (cases n; cases n') (simp_all add: cmpEqualPointer_eq)

lemma cmpEqualPath_eq: "cmpEqualPath p q = (p = q)"
  by (cases p; cases q) (simp add: cmpEqualPath_def cmpEqualSlice_eq [OF cmpEqualNode_eq])

lemma cmpEqualSchemaBinding_eq: "cmpEqualSchemaBinding b c = (b = c)"
  by (cases b; cases c) (simp add: cmpEqualSchemaBinding_def cmpEqualSlice_eq)

lemma cmpEqualApplyTo_eq: "cmpEqualApplyTo t u = (t = u)"
  by (cases t; cases u) (simp add: cmpEqualApplyTo_def cmpEqualSlice_eq)

lemma cmpEqualSpec_eq: "cmpEqualSpec x y = (x = y)"
  by (cases x; cases y)
     (simp add: cmpEqualSpec_def cmpEqualSlice_eq [OF cmpEqualApplyTo_eq] cmpEqualSlice_eq)

text \<open>
  A nil slice and an empty slice are different values for \<^verbatim>\<open>cmp.Equal\<close>, at every
  place a slice occurs: two mutators that differ only in that one has no \<^verbatim>\<open>applyTo\<close>
  entries in a nil slice and the other in an empty one have a diff, and so have two
  that differ only in a nil and an empty binding slice.
\<close>

lemma HasDiff_nil_and_empty_slice:
  "HasDiff (m\<lparr>bindings := NilSlice\<rparr>) (IsAssignMutator (m\<lparr>bindings := Slice []\<rparr>))"
  "HasDiff (m\<lparr>assign := a\<lparr>Spec := sp\<lparr>ApplyTo := NilSlice\<rparr>\<rparr>\<rparr>)
     (IsAssignMutator (m\<lparr>assign := a\<lparr>Spec := sp\<lparr>ApplyTo := Slice []\<rparr>\<rparr>\<rparr>))"
  by (simp_all add: cmpEqualSpec_def)

text \<open>
  C7. For two mutators of the Assign kind, \<open>HasDiff\<close> is true exactly when their
  identities, their paths, their bindings or the specs of their declarations differ,
  and false exactly when all four are equal. The four parts are the values that
  \<^verbatim>\<open>cmp.Equal\<close> walks: a path with its nodes, the bindings and the spec with their
  slices, where a nil slice is a value of its own.
\<close>

theorem C7_HasDiff_compares_four_parts:
  "HasDiff m (IsAssignMutator other) =
     (id' other \<noteq> id' m \<or> path other \<noteq> path m \<or> bindings other \<noteq> bindings m
      \<or> Spec (assign other) \<noteq> Spec (assign m))
   \<and> (\<not> HasDiff m (IsAssignMutator other)) =
     (id' other = id' m \<and> path other = path m \<and> bindings other = bindings m
      \<and> Spec (assign other) = Spec (assign m))"
proof -
  have p: "cmpEqualPath (path other) (path m) = (path other = path m)"
    by (rule cmpEqualPath_eq)
  have b: "cmpEqualSlice cmpEqualSchemaBinding (bindings other) (bindings m) =
      (bindings other = bindings m)"
    by (rule cmpEqualSlice_eq [OF cmpEqualSchemaBinding_eq])
  have s: "cmpEqualSpec (Spec (assign other)) (Spec (assign m)) =
      (Spec (assign other) = Spec (assign m))"
    by (rule cmpEqualSpec_eq)
  show ?thesis
    by (simp add: p b s)
qed

theorem C7_HasDiff_compares_four_parts_witness:
  "HasDiff
     \<lparr>id' = ''demo'', assign = exampleAssign ''spec.replicas'' payloadScalar,
      path = \<lparr>Nodes = Slice [Object ''spec'', Object ''replicas'']\<rparr>, bindings = Slice []\<rparr>
     (IsAssignMutator
       \<lparr>id' = ''demo'', assign = exampleAssign ''spec.replicas'' payloadScalar,
        path = \<lparr>Nodes = Slice [Object ''spec'', Object ''paused'']\<rparr>, bindings = Slice []\<rparr>)
   \<and> HasDiff
     \<lparr>id' = ''demo'', assign = exampleAssign ''spec.replicas'' payloadScalar,
      path = \<lparr>Nodes = Slice [Object ''spec'', Object ''replicas'']\<rparr>, bindings = Slice []\<rparr>
     (IsAssignMutator
       \<lparr>id' = ''demo'', assign = exampleAssign ''spec.replicas'' payloadScalar,
        path = \<lparr>Nodes = Slice [Object ''spec'', Object ''replicas'']\<rparr>, bindings = NilSlice\<rparr>)
   \<and> \<not> HasDiff
     \<lparr>id' = ''demo'', assign = exampleAssign ''spec.replicas'' payloadScalar,
      path = \<lparr>Nodes = Slice [Object ''spec'', Object ''replicas'']\<rparr>, bindings = Slice []\<rparr>
     (IsAssignMutator
       \<lparr>id' = ''demo'',
        assign = (exampleAssign ''spec.replicas'' payloadScalar)\<lparr>Name := ''renamed''\<rparr>,
        path = \<lparr>Nodes = Slice [Object ''spec'', Object ''replicas'']\<rparr>, bindings = Slice []\<rparr>)"
proof -
  let ?m = "\<lparr>id' = ''demo'', assign = exampleAssign ''spec.replicas'' payloadScalar,
      path = \<lparr>Nodes = Slice [Object ''spec'', Object ''replicas'']\<rparr>, bindings = Slice []\<rparr>"
  let ?moved = "\<lparr>id' = ''demo'', assign = exampleAssign ''spec.replicas'' payloadScalar,
      path = \<lparr>Nodes = Slice [Object ''spec'', Object ''paused'']\<rparr>, bindings = Slice []\<rparr>"
  let ?unbound = "\<lparr>id' = ''demo'', assign = exampleAssign ''spec.replicas'' payloadScalar,
      path = \<lparr>Nodes = Slice [Object ''spec'', Object ''replicas'']\<rparr>, bindings = NilSlice\<rparr>"
  let ?renamed = "\<lparr>id' = ''demo'',
      assign = (exampleAssign ''spec.replicas'' payloadScalar)\<lparr>Name := ''renamed''\<rparr>,
      path = \<lparr>Nodes = Slice [Object ''spec'', Object ''replicas'']\<rparr>, bindings = Slice []\<rparr>"
  have differ: "HasDiff ?m (IsAssignMutator ?moved)"
    using C7_HasDiff_compares_four_parts [of ?m ?moved, THEN conjunct1]
    by (simp del: HasDiff.simps)
  have nil_differs: "HasDiff ?m (IsAssignMutator ?unbound)"
    using C7_HasDiff_compares_four_parts [of ?m ?unbound, THEN conjunct1]
    by (simp del: HasDiff.simps)
  have agree: "\<not> HasDiff ?m (IsAssignMutator ?renamed)"
    using C7_HasDiff_compares_four_parts [of ?m ?renamed, THEN conjunct2]
    by (simp del: HasDiff.simps)
  from differ nil_differs agree show ?thesis by blast
qed

subsection \<open>The store after DeepCopy\<close>

lemma allocated_lt: "allocated s \<Longrightarrow> cells s a = Some x \<Longrightarrow> a < nextAddr s"
  unfolding allocated_def by (metis not_le option.distinct(1))

lemma copyElems_full: "length dst = length src \<Longrightarrow> copyElems dst src = src"
  by (simp add: copyElems_def)

lemma DeepCopyAssign_frame:
  assumes "allocated s" and "DeepCopyAssign s a = Some (aC, s1)"
  shows "allocated s1 \<and> (\<forall>x. x < nextAddr s \<longrightarrow> cells s1 x = cells s x)
     \<and> nextAddr s \<le> nextAddr s1
     \<and> (\<forall>x. nextAddr s \<le> x \<longrightarrow> cells s1 x = None \<or> (\<exists>v. cells s1 x = Some (AssignCell v)))"
  using assms
  by (auto simp: DeepCopyAssign_def new_def allocated_def split: option.splits cell.splits)

lemma DeepCopy_steps:
  assumes dc: "DeepCopy s m = Some (c, s')"
  obtains mu assignC s1 srcHdr srcNodes srcBindings s5 s6 where
    "loadMutator s m = Some mu"
    "DeepCopyAssign s (assignAt mu) = Some (assignC, s1)"
    "loadNodes s1 (pathAt mu) = Some srcHdr"
    "loadNodeArray s1 srcHdr = Some srcNodes"
    "loadBindingArray
       (s1\<lparr>cells := (cells s1)
            (nextAddr s1 \<mapsto> NodeArrayCell (replicate (length srcNodes) None),
             Suc (nextAddr s1) \<mapsto> PathCell (Some (nextAddr s1))),
          nextAddr := Suc (Suc (nextAddr s1))\<rparr>) (bindingsAt mu) = Some srcBindings"
    "s5 = s1\<lparr>cells := (cells s1)
            (nextAddr s1 \<mapsto> NodeArrayCell (replicate (length srcNodes) None),
             Suc (nextAddr s1) \<mapsto> PathCell (Some (nextAddr s1)),
             Suc (Suc (nextAddr s1)) \<mapsto> BindingArrayCell (replicate (length srcBindings)
                 \<lparr>GroupsAt = None, KindsAt = None, VersionsAt = None\<rparr>),
             Suc (Suc (Suc (nextAddr s1))) \<mapsto> MutatorCell
                \<lparr>idOf = idOf mu, assignAt = assignC, pathAt = Some (Suc (nextAddr s1)),
                 bindingsAt = Some (Suc (Suc (nextAddr s1)))\<rparr>),
          nextAddr := Suc (Suc (Suc (Suc (nextAddr s1))))\<rparr>"
    "copyNodes s5 (Suc (Suc (Suc (nextAddr s1)))) m = Some s6"
    "copyBindings s6 (Suc (Suc (Suc (nextAddr s1)))) m = Some s'"
    "c = Suc (Suc (Suc (nextAddr s1)))"
  using dc
  apply (simp add: DeepCopy_def bind_eq_Some_conv new_def split: prod.splits)
  apply (erule exE conjE)+
  apply simp
  done

lemma DeepCopy_result:
  assumes wf: "allocated s" and dc: "DeepCopy s m = Some (c, s')"
  obtains mu assignC s1 srcHdr srcNodes srcBindings where
    "loadMutator s m = Some mu"
    "DeepCopyAssign s (assignAt mu) = Some (assignC, s1)"
    "loadNodes s (pathAt mu) = Some srcHdr"
    "loadNodeArray s srcHdr = Some srcNodes"
    "loadBindingArray s (bindingsAt mu) = Some srcBindings"
    "m < nextAddr s"
    "c = Suc (Suc (Suc (nextAddr s1)))"
    "\<forall>x. x < nextAddr s1 \<longrightarrow> cells s' x = cells s1 x"
    "cells s' (nextAddr s1) = Some (NodeArrayCell srcNodes)"
    "cells s' (Suc (nextAddr s1)) = Some (PathCell (Some (nextAddr s1)))"
    "cells s' (Suc (Suc (nextAddr s1))) = Some (BindingArrayCell srcBindings)"
    "cells s' (Suc (Suc (Suc (nextAddr s1)))) = Some (MutatorCell
        \<lparr>idOf = idOf mu, assignAt = assignC, pathAt = Some (Suc (nextAddr s1)),
         bindingsAt = Some (Suc (Suc (nextAddr s1)))\<rparr>)"
    "\<forall>x. Suc (Suc (Suc (Suc (nextAddr s1)))) \<le> x \<longrightarrow> cells s' x = None"
proof -
  from dc obtain mu assignC s1 srcHdr srcNodes srcBindings s5 s6 where
    mu: "loadMutator s m = Some mu"
    and a: "DeepCopyAssign s (assignAt mu) = Some (assignC, s1)"
    and hdr1: "loadNodes s1 (pathAt mu) = Some srcHdr"
    and nodes1: "loadNodeArray s1 srcHdr = Some srcNodes"
    and bind3: "loadBindingArray
       (s1\<lparr>cells := (cells s1)
            (nextAddr s1 \<mapsto> NodeArrayCell (replicate (length srcNodes) None),
             Suc (nextAddr s1) \<mapsto> PathCell (Some (nextAddr s1))),
          nextAddr := Suc (Suc (nextAddr s1))\<rparr>) (bindingsAt mu) = Some srcBindings"
    and s5: "s5 = s1\<lparr>cells := (cells s1)
            (nextAddr s1 \<mapsto> NodeArrayCell (replicate (length srcNodes) None),
             Suc (nextAddr s1) \<mapsto> PathCell (Some (nextAddr s1)),
             Suc (Suc (nextAddr s1)) \<mapsto> BindingArrayCell (replicate (length srcBindings)
                 \<lparr>GroupsAt = None, KindsAt = None, VersionsAt = None\<rparr>),
             Suc (Suc (Suc (nextAddr s1))) \<mapsto> MutatorCell
                \<lparr>idOf = idOf mu, assignAt = assignC, pathAt = Some (Suc (nextAddr s1)),
                 bindingsAt = Some (Suc (Suc (nextAddr s1)))\<rparr>),
          nextAddr := Suc (Suc (Suc (Suc (nextAddr s1))))\<rparr>"
    and s6: "copyNodes s5 (Suc (Suc (Suc (nextAddr s1)))) m = Some s6"
    and s7: "copyBindings s6 (Suc (Suc (Suc (nextAddr s1)))) m = Some s'"
    and c: "c = Suc (Suc (Suc (nextAddr s1)))"
    by (rule DeepCopy_steps)
  note f = DeepCopyAssign_frame [OF wf a]
  from f have wf1: "allocated s1" and same: "\<And>x. x < nextAddr s \<Longrightarrow> cells s1 x = cells s x"
    and le: "nextAddr s \<le> nextAddr s1"
    and fresh: "\<And>x. nextAddr s \<le> x \<Longrightarrow> cells s1 x = None \<or> (\<exists>v. cells s1 x = Some (AssignCell v))"
    by blast+
  have m_lt: "m < nextAddr s"
    using mu allocated_lt [OF wf, of m] by (auto simp: loadMutator_def split: option.splits)
  have m_lt1: "m < nextAddr s1" using m_lt le by simp
  have mu1: "cells s1 m = Some (MutatorCell mu)"
    using mu same [OF m_lt] by (auto simp: loadMutator_def split: option.splits cell.splits)
  obtain pa where pa: "pathAt mu = Some pa" "cells s1 pa = Some (PathCell srcHdr)"
    using hdr1 by (auto simp: loadNodes_def split: option.splits cell.splits)
  have pa_lt1: "pa < nextAddr s1" using pa(2) allocated_lt [OF wf1] by blast
  have pa_lt: "pa < nextAddr s"
  proof (rule ccontr)
    assume "\<not> pa < nextAddr s"
    then have "nextAddr s \<le> pa" by simp
    from fresh [OF this] pa(2) show False by auto
  qed
  have hdr: "loadNodes s (pathAt mu) = Some srcHdr"
    using pa same [OF pa_lt] by (simp add: loadNodes_def)
  have hdr_lt1: "\<And>h. srcHdr = Some h \<Longrightarrow> h < nextAddr s1 \<and> cells s1 h = Some (NodeArrayCell srcNodes)"
    using nodes1 allocated_lt [OF wf1]
    by (auto simp: loadNodeArray_def split: option.splits cell.splits)
  have hdr_lt: "\<And>h. srcHdr = Some h \<Longrightarrow> h < nextAddr s"
  proof (rule ccontr)
    fix h assume h: "srcHdr = Some h" and "\<not> h < nextAddr s"
    then have "nextAddr s \<le> h" by simp
    from fresh [OF this] hdr_lt1 [OF h] show False by auto
  qed
  have nil_nodes: "srcHdr = None \<Longrightarrow> srcNodes = []"
    using nodes1 by (simp add: loadNodeArray_def)
  have nodes: "loadNodeArray s srcHdr = Some srcNodes"
    using nodes1 hdr_lt same by (cases srcHdr) (auto simp: loadNodeArray_def)
  have b_lt1: "\<And>b. bindingsAt mu = Some b \<Longrightarrow>
      b < nextAddr s1 \<and> cells s1 b = Some (BindingArrayCell srcBindings)"
  proof -
    fix b assume b: "bindingsAt mu = Some b"
    have "b \<noteq> nextAddr s1" "b \<noteq> Suc (nextAddr s1)"
      using bind3 b by (auto simp: loadBindingArray_def split: if_splits)
    then have "cells s1 b = Some (BindingArrayCell srcBindings)"
      using bind3 b by (auto simp: loadBindingArray_def split: option.splits cell.splits)
    then show "b < nextAddr s1 \<and> cells s1 b = Some (BindingArrayCell srcBindings)"
      using allocated_lt [OF wf1] by blast
  qed
  have b_lt: "\<And>b. bindingsAt mu = Some b \<Longrightarrow> b < nextAddr s"
  proof (rule ccontr)
    fix b assume b: "bindingsAt mu = Some b" and "\<not> b < nextAddr s"
    then have "nextAddr s \<le> b" by simp
    from fresh [OF this] b_lt1 [OF b] show False by auto
  qed
  have nil_bindings: "bindingsAt mu = None \<Longrightarrow> srcBindings = []"
    using bind3 by (simp add: loadBindingArray_def)
  have binds1: "loadBindingArray s1 (bindingsAt mu) = Some srcBindings"
    using b_lt1 nil_bindings by (cases "bindingsAt mu") (auto simp: loadBindingArray_def)
  have binds: "loadBindingArray s (bindingsAt mu) = Some srcBindings"
    using binds1 b_lt same by (cases "bindingsAt mu") (auto simp: loadBindingArray_def)
  let ?n = "nextAddr s1"
  have s6_eq: "s6 = s5\<lparr>cells := (cells s5)(?n \<mapsto> NodeArrayCell srcNodes)\<rparr>"
  proof -
    have r: "loadMutator s5 (Suc (Suc (Suc ?n))) = Some
        \<lparr>idOf = idOf mu, assignAt = assignC, pathAt = Some (Suc ?n),
         bindingsAt = Some (Suc (Suc ?n))\<rparr>"
      by (simp add: s5 loadMutator_def)
    have dh: "loadNodes s5 (Some (Suc ?n)) = Some (Some ?n)"
      by (simp add: s5 loadNodes_def)
    have d: "loadNodeArray s5 (Some ?n) = Some (replicate (length srcNodes) None)"
      by (simp add: s5 loadNodeArray_def)
    have m5: "loadMutator s5 m = Some mu"
      using m_lt1 mu1 by (simp add: s5 loadMutator_def)
    have sh: "loadNodes s5 (pathAt mu) = Some srcHdr"
      using pa pa_lt1 by (simp add: s5 loadNodes_def)
    have sn: "loadNodeArray s5 srcHdr = Some srcNodes"
      using hdr_lt1 nil_nodes by (cases srcHdr) (auto simp: s5 loadNodeArray_def)
    show ?thesis
      using s6 by (simp add: copyNodes_def r dh d m5 sh sn storeArray_def copyElems_full)
  qed
  have s7_eq: "s' = s6\<lparr>cells := (cells s6)(Suc (Suc ?n) \<mapsto> BindingArrayCell srcBindings)\<rparr>"
  proof -
    have r: "loadMutator s6 (Suc (Suc (Suc ?n))) = Some
        \<lparr>idOf = idOf mu, assignAt = assignC, pathAt = Some (Suc ?n),
         bindingsAt = Some (Suc (Suc ?n))\<rparr>"
      by (simp add: s6_eq s5 loadMutator_def)
    have d: "loadBindingArray s6 (Some (Suc (Suc ?n))) = Some (replicate (length srcBindings)
                 \<lparr>GroupsAt = None, KindsAt = None, VersionsAt = None\<rparr>)"
      by (simp add: s6_eq s5 loadBindingArray_def)
    have m6: "loadMutator s6 m = Some mu"
      using m_lt1 mu1 by (simp add: s6_eq s5 loadMutator_def)
    have sb: "loadBindingArray s6 (bindingsAt mu) = Some srcBindings"
      using b_lt1 nil_bindings
      by (cases "bindingsAt mu") (auto simp: s6_eq s5 loadBindingArray_def)
    show ?thesis
      using s7 by (simp add: copyBindings_def r d m6 sb storeArray_def copyElems_full)
  qed
  have old: "\<forall>x. x < ?n \<longrightarrow> cells s' x = cells s1 x"
    by (simp add: s7_eq s6_eq s5)
  have c0: "cells s' ?n = Some (NodeArrayCell srcNodes)"
    by (simp add: s7_eq s6_eq s5)
  have c1: "cells s' (Suc ?n) = Some (PathCell (Some ?n))"
    by (simp add: s7_eq s6_eq s5)
  have c2: "cells s' (Suc (Suc ?n)) = Some (BindingArrayCell srcBindings)"
    by (simp add: s7_eq s6_eq s5)
  have c3: "cells s' (Suc (Suc (Suc ?n))) = Some (MutatorCell
        \<lparr>idOf = idOf mu, assignAt = assignC, pathAt = Some (Suc ?n),
         bindingsAt = Some (Suc (Suc ?n))\<rparr>)"
    by (simp add: s7_eq s6_eq s5)
  have beyond: "\<forall>x. Suc (Suc (Suc (Suc ?n))) \<le> x \<longrightarrow> cells s' x = None"
    using wf1 by (simp add: s7_eq s6_eq s5 allocated_def)
  from that [OF mu a hdr nodes binds m_lt c old c0 c1 c2 c3 beyond] show thesis .
qed

lemma DeepCopyAssign_value:
  assumes "allocated s" and "DeepCopyAssign s a = Some (aC, s1)"
  shows "loadAssign s1 aC = loadAssign s a"
  using assms
  by (auto simp: DeepCopyAssign_def new_def loadAssign_def allocated_def
           split: option.splits cell.splits)

lemma loadAssign_lt:
  "allocated s \<Longrightarrow> (\<And>x. x < nextAddr s \<Longrightarrow> cells t x = cells s x) \<Longrightarrow>
   loadAssign s a = Some v \<Longrightarrow> loadAssign t a = Some v"
  by (cases a) (auto simp: loadAssign_def split: option.splits cell.splits dest: allocated_lt)

lemma DeepCopy_frame:
  assumes wf: "allocated s" and dc: "DeepCopy s m = Some (c, s')"
  shows "(\<forall>x. x < nextAddr s \<longrightarrow> cells s' x = cells s x)
     \<and> (\<forall>x. nextAddr s \<le> x \<longrightarrow>
           (\<forall>n. cells s' x \<noteq> Some (NodeCell n)) \<and> (\<forall>xs. cells s' x \<noteq> Some (StringArrayCell xs)))"
proof -
  from wf dc obtain mu assignC s1 srcHdr srcNodes srcBindings where
    mu: "loadMutator s m = Some mu"
    and a: "DeepCopyAssign s (assignAt mu) = Some (assignC, s1)"
    and hdr: "loadNodes s (pathAt mu) = Some srcHdr"
    and nodes: "loadNodeArray s srcHdr = Some srcNodes"
    and binds: "loadBindingArray s (bindingsAt mu) = Some srcBindings"
    and m_lt: "m < nextAddr s"
    and c: "c = Suc (Suc (Suc (nextAddr s1)))"
    and old': "\<forall>x. x < nextAddr s1 \<longrightarrow> cells s' x = cells s1 x"
    and c0: "cells s' (nextAddr s1) = Some (NodeArrayCell srcNodes)"
    and c1: "cells s' (Suc (nextAddr s1)) = Some (PathCell (Some (nextAddr s1)))"
    and c2: "cells s' (Suc (Suc (nextAddr s1))) = Some (BindingArrayCell srcBindings)"
    and c3: "cells s' (Suc (Suc (Suc (nextAddr s1)))) = Some (MutatorCell
        \<lparr>idOf = idOf mu, assignAt = assignC, pathAt = Some (Suc (nextAddr s1)),
         bindingsAt = Some (Suc (Suc (nextAddr s1)))\<rparr>)"
    and beyond': "\<forall>x. Suc (Suc (Suc (Suc (nextAddr s1)))) \<le> x \<longrightarrow> cells s' x = None"
    by (rule DeepCopy_result)
  from old' have old: "\<And>x. x < nextAddr s1 \<Longrightarrow> cells s' x = cells s1 x" by blast
  from beyond' have beyond: "\<And>x. Suc (Suc (Suc (Suc (nextAddr s1)))) \<le> x \<Longrightarrow> cells s' x = None"
    by blast
  from DeepCopyAssign_frame [OF wf a]
  have same: "\<And>x. x < nextAddr s \<Longrightarrow> cells s1 x = cells s x"
    and le: "nextAddr s \<le> nextAddr s1"
    and fresh: "\<And>x. nextAddr s \<le> x \<Longrightarrow> cells s1 x = None \<or> (\<exists>v. cells s1 x = Some (AssignCell v))"
    by blast+
  have kept: "cells s' x = cells s x" if "x < nextAddr s" for x
    using that old [of x] same [of x] le by simp
  have new_cells: "(\<forall>n. cells s' x \<noteq> Some (NodeCell n)) \<and> (\<forall>xs. cells s' x \<noteq> Some (StringArrayCell xs))"
    if x: "nextAddr s \<le> x" for x
  proof -
    consider "x < nextAddr s1" | "x = nextAddr s1" | "x = Suc (nextAddr s1)" | "x = Suc (Suc (nextAddr s1))"
      | "x = Suc (Suc (Suc (nextAddr s1)))" | "Suc (Suc (Suc (Suc (nextAddr s1)))) \<le> x"
      by arith
    then show ?thesis
    proof cases
      case 1
      with old [of x] fresh [OF x] show ?thesis by auto
    next
      case 2 with c0 show ?thesis by simp
    next
      case 3 with c1 show ?thesis by simp
    next
      case 4 with c2 show ?thesis by simp
    next
      case 5 with c3 show ?thesis by simp
    next
      case 6 with beyond [of x] show ?thesis by simp
    qed
  qed
  from kept new_cells show ?thesis by blast
qed

lemma DeepCopy_readNode:
  assumes wf: "allocated s" and dc: "DeepCopy s m = Some (c, s')"
  shows "readNode s' p = readNode s p"
proof (cases p)
  case None
  then show ?thesis by (simp add: readNode_def)
next
  case (Some x)
  note f = DeepCopy_frame [OF wf dc]
  show ?thesis
  proof (cases "x < nextAddr s")
    case True
    with f Some show ?thesis by (simp add: readNode_def)
  next
    case False
    then have "cells s x = None" using wf by (simp add: allocated_def)
    moreover have "\<forall>n. cells s' x \<noteq> Some (NodeCell n)" using f False by simp
    ultimately show ?thesis
      using Some by (auto simp: readNode_def split: option.splits cell.splits)
  qed
qed

lemma DeepCopy_loadStringArray:
  assumes wf: "allocated s" and dc: "DeepCopy s m = Some (c, s')"
  shows "loadStringArray s' h = loadStringArray s h"
proof (cases h)
  case None
  then show ?thesis by (simp add: loadStringArray_def)
next
  case (Some x)
  note f = DeepCopy_frame [OF wf dc]
  show ?thesis
  proof (cases "x < nextAddr s")
    case True
    with f Some show ?thesis by (simp add: loadStringArray_def)
  next
    case False
    then have "cells s x = None" using wf by (simp add: allocated_def)
    moreover have "\<forall>xs. cells s' x \<noteq> Some (StringArrayCell xs)" using f False by simp
    ultimately show ?thesis
      using Some by (auto simp: loadStringArray_def split: option.splits cell.splits)
  qed
qed

lemma DeepCopy_readBinding:
  assumes "allocated s" and "DeepCopy s m = Some (c, s')"
  shows "readBinding s' = readBinding s"
  by (rule ext) (simp add: readBinding_def readStrings_def DeepCopy_loadStringArray [OF assms])

lemma load_kept:
  assumes "allocated s" and "\<And>x. x < nextAddr s \<Longrightarrow> cells t x = cells s x"
  shows "loadMutator s a = Some mu \<Longrightarrow> loadMutator t a = Some mu"
    and "loadNodes s p = Some hdr \<Longrightarrow> loadNodes t p = Some hdr"
    and "loadNodeArray s hdr = Some ptrs \<Longrightarrow> loadNodeArray t hdr = Some ptrs"
    and "loadBindingArray s b = Some bs \<Longrightarrow> loadBindingArray t b = Some bs"
  using assms
  by (auto simp: loadMutator_def loadNodes_def loadNodeArray_def loadBindingArray_def
           split: option.splits cell.splits dest: allocated_lt)

text \<open>
  In an allocated store, \<open>DeepCopy\<close> of a mutator returns a different address. The
  node slice of the copy holds the very pointers of the original's node slice, and its
  binding slice the very slice headers of the original's: the node objects and the
  string arrays behind them are the same objects for both mutators.
\<close>

lemma DeepCopy_shares_pointers:
  assumes wf: "allocated s" and dc: "DeepCopy s m = Some (c, s')"
  shows "c \<noteq> m
     \<and> (\<exists>ptrs. nodePointers s m = Some ptrs \<and> nodePointers s' m = Some ptrs
                \<and> nodePointers s' c = Some ptrs)
     \<and> (\<exists>hdrs. bindingHeaders s m = Some hdrs \<and> bindingHeaders s' m = Some hdrs
                \<and> bindingHeaders s' c = Some hdrs)"
proof -
  from wf dc obtain mu assignC s1 srcHdr srcNodes srcBindings where
    mu: "loadMutator s m = Some mu"
    and a: "DeepCopyAssign s (assignAt mu) = Some (assignC, s1)"
    and hdr: "loadNodes s (pathAt mu) = Some srcHdr"
    and nodes: "loadNodeArray s srcHdr = Some srcNodes"
    and binds: "loadBindingArray s (bindingsAt mu) = Some srcBindings"
    and m_lt: "m < nextAddr s"
    and c: "c = Suc (Suc (Suc (nextAddr s1)))"
    and old': "\<forall>x. x < nextAddr s1 \<longrightarrow> cells s' x = cells s1 x"
    and c0: "cells s' (nextAddr s1) = Some (NodeArrayCell srcNodes)"
    and c1: "cells s' (Suc (nextAddr s1)) = Some (PathCell (Some (nextAddr s1)))"
    and c2: "cells s' (Suc (Suc (nextAddr s1))) = Some (BindingArrayCell srcBindings)"
    and c3: "cells s' (Suc (Suc (Suc (nextAddr s1)))) = Some (MutatorCell
        \<lparr>idOf = idOf mu, assignAt = assignC, pathAt = Some (Suc (nextAddr s1)),
         bindingsAt = Some (Suc (Suc (nextAddr s1)))\<rparr>)"
    and beyond': "\<forall>x. Suc (Suc (Suc (Suc (nextAddr s1)))) \<le> x \<longrightarrow> cells s' x = None"
    by (rule DeepCopy_result)
  from old' have old: "\<And>x. x < nextAddr s1 \<Longrightarrow> cells s' x = cells s1 x" by blast
  from beyond' have beyond: "\<And>x. Suc (Suc (Suc (Suc (nextAddr s1)))) \<le> x \<Longrightarrow> cells s' x = None"
    by blast
  have kept: "\<And>x. x < nextAddr s \<Longrightarrow> cells s' x = cells s x"
    using DeepCopy_frame [OF wf dc] by blast
  have le: "nextAddr s \<le> nextAddr s1"
    using DeepCopyAssign_frame [OF wf a] by blast
  have "c \<noteq> m" using c m_lt le by arith
  moreover have "nodePointers s m = Some srcNodes"
    by (simp add: nodePointers_def mu hdr nodes)
  moreover have "nodePointers s' m = Some srcNodes"
    by (simp add: nodePointers_def load_kept [OF wf kept] mu hdr nodes)
  moreover have "nodePointers s' c = Some srcNodes"
    by (simp add: nodePointers_def loadMutator_def loadNodes_def loadNodeArray_def c c0 c1 c3)
  moreover have "bindingHeaders s m = Some srcBindings"
    by (simp add: bindingHeaders_def mu binds)
  moreover have "bindingHeaders s' m = Some srcBindings"
    by (simp add: bindingHeaders_def load_kept [OF wf kept] mu binds)
  moreover have "bindingHeaders s' c = Some srcBindings"
    by (simp add: bindingHeaders_def loadMutator_def loadBindingArray_def c c2 c3)
  ultimately show ?thesis by simp
qed

text \<open>
  In an allocated store, the original still reads as the value it had, and the copy
  reads as that value with its node slice and its binding slice made: equal to the
  original where these two slices are not nil, and with empty slices in place of nil
  ones otherwise.
\<close>

lemma DeepCopy_reads:
  assumes wf: "allocated s" and dc: "DeepCopy s m = Some (c, s')"
  shows "readMutator s' c = map_option withMadeSlices (readMutator s m)
     \<and> readMutator s' m = readMutator s m"
proof -
  from wf dc obtain mu assignC s1 srcHdr srcNodes srcBindings where
    mu: "loadMutator s m = Some mu"
    and a: "DeepCopyAssign s (assignAt mu) = Some (assignC, s1)"
    and hdr: "loadNodes s (pathAt mu) = Some srcHdr"
    and nodes: "loadNodeArray s srcHdr = Some srcNodes"
    and binds: "loadBindingArray s (bindingsAt mu) = Some srcBindings"
    and m_lt: "m < nextAddr s"
    and c: "c = Suc (Suc (Suc (nextAddr s1)))"
    and old': "\<forall>x. x < nextAddr s1 \<longrightarrow> cells s' x = cells s1 x"
    and c0: "cells s' (nextAddr s1) = Some (NodeArrayCell srcNodes)"
    and c1: "cells s' (Suc (nextAddr s1)) = Some (PathCell (Some (nextAddr s1)))"
    and c2: "cells s' (Suc (Suc (nextAddr s1))) = Some (BindingArrayCell srcBindings)"
    and c3: "cells s' (Suc (Suc (Suc (nextAddr s1)))) = Some (MutatorCell
        \<lparr>idOf = idOf mu, assignAt = assignC, pathAt = Some (Suc (nextAddr s1)),
         bindingsAt = Some (Suc (Suc (nextAddr s1)))\<rparr>)"
    and beyond': "\<forall>x. Suc (Suc (Suc (Suc (nextAddr s1)))) \<le> x \<longrightarrow> cells s' x = None"
    by (rule DeepCopy_result)
  from old' have old: "\<And>x. x < nextAddr s1 \<Longrightarrow> cells s' x = cells s1 x" by blast
  from beyond' have beyond: "\<And>x. Suc (Suc (Suc (Suc (nextAddr s1)))) \<le> x \<Longrightarrow> cells s' x = None"
    by blast
  have kept: "\<And>x. x < nextAddr s \<Longrightarrow> cells s' x = cells s x"
    using DeepCopy_frame [OF wf dc] by blast
  have wf1: "allocated s1"
    using DeepCopyAssign_frame [OF wf a] by blast
  note rn = DeepCopy_readNode [OF wf dc]
  note rb = DeepCopy_readBinding [OF wf dc]
  have asg_m: "loadAssign s' (assignAt mu) = loadAssign s (assignAt mu)"
  proof (cases "loadAssign s (assignAt mu)")
    case None
    then have "assignAt mu = None"
      using a by (auto simp: DeepCopyAssign_def loadAssign_def split: option.splits cell.splits)
    then show ?thesis by (simp add: loadAssign_def)
  next
    case (Some v)
    from loadAssign_lt [OF wf kept Some] Some show ?thesis by simp
  qed
  have asg_c: "loadAssign s' assignC = loadAssign s (assignAt mu)"
  proof (cases "loadAssign s1 assignC")
    case None
    then have "assignC = None"
      using a by (auto simp: DeepCopyAssign_def new_def loadAssign_def split: option.splits cell.splits)
    then show ?thesis
      using None DeepCopyAssign_value [OF wf a] by (simp add: loadAssign_def)
  next
    case (Some v)
    from loadAssign_lt [OF wf1 old Some] Some DeepCopyAssign_value [OF wf a]
    show ?thesis by simp
  qed
  have nil_nodes: "srcHdr = None \<Longrightarrow> srcNodes = []"
    using nodes by (simp add: loadNodeArray_def)
  have nil_bindings: "bindingsAt mu = None \<Longrightarrow> srcBindings = []"
    using binds by (simp add: loadBindingArray_def)
  have orig: "readMutator s m =
      do { a \<leftarrow> loadAssign s (assignAt mu);
           ns \<leftarrow> those (map (readNode s) srcNodes);
           bs \<leftarrow> those (map (readBinding s) srcBindings);
           Some \<lparr>id' = idOf mu, assign = a, path = \<lparr>Nodes = asSlice srcHdr ns\<rparr>,
                 bindings = asSlice (bindingsAt mu) bs\<rparr> }"
    by (simp add: readMutator_def readPath_def mu hdr nodes binds)
  have after: "readMutator s' m =
      do { a \<leftarrow> loadAssign s (assignAt mu);
           ns \<leftarrow> those (map (readNode s) srcNodes);
           bs \<leftarrow> those (map (readBinding s) srcBindings);
           Some \<lparr>id' = idOf mu, assign = a, path = \<lparr>Nodes = asSlice srcHdr ns\<rparr>,
                 bindings = asSlice (bindingsAt mu) bs\<rparr> }"
    using rn
    by (simp add: readMutator_def readPath_def load_kept [OF wf kept] mu hdr nodes binds
          asg_m rb cong: map_cong)
  have copy: "readMutator s' c =
      do { a \<leftarrow> loadAssign s (assignAt mu);
           ns \<leftarrow> those (map (readNode s) srcNodes);
           bs \<leftarrow> those (map (readBinding s) srcBindings);
           Some \<lparr>id' = idOf mu, assign = a, path = \<lparr>Nodes = Slice ns\<rparr>,
                 bindings = Slice bs\<rparr> }"
    using rn
    by (simp add: readMutator_def readPath_def loadMutator_def loadNodes_def loadNodeArray_def
          loadBindingArray_def asSlice_def c c0 c1 c2 c3 asg_c rb cong: map_cong)
  have ns_nil: "elems (asSlice srcHdr ns) = ns"
    if "those (map (readNode s) srcNodes) = Some ns" for ns
    using that nil_nodes by (cases srcHdr) (auto simp: asSlice_def)
  have bs_nil: "elems (asSlice (bindingsAt mu) bs) = bs"
    if "those (map (readBinding s) srcBindings) = Some bs" for bs
    using that nil_bindings by (cases "bindingsAt mu") (auto simp: asSlice_def)
  have made: "readMutator s' c = map_option withMadeSlices (readMutator s m)"
  proof (cases "loadAssign s (assignAt mu)")
    case None
    then show ?thesis by (simp add: orig copy)
  next
    case asg: (Some a)
    show ?thesis
    proof (cases "those (map (readNode s) srcNodes)")
      case None
      then show ?thesis by (simp add: orig copy asg)
    next
      case ns: (Some ns)
      show ?thesis
      proof (cases "those (map (readBinding s) srcBindings)")
        case None
        then show ?thesis by (simp add: orig copy asg ns)
      next
        case bs: (Some bs)
        show ?thesis
          by (simp add: orig copy asg ns bs withMadeSlices_def ns_nil [OF ns] bs_nil [OF bs])
      qed
    qed
  qed
  from made orig after show ?thesis by simp
qed

text \<open>
  So, in an allocated store, \<open>HasDiff\<close> between a mutator and its copy is false when
  the mutator's node slice and binding slice are not nil, and true when one of them is
  nil.
\<close>

lemma DeepCopy_HasDiff:
  assumes "allocated s" and "DeepCopy s m = Some (c, s')"
      and "readMutator s m = Some v"
  shows "\<exists>v'. readMutator s' c = Some v'
           \<and> HasDiff v (IsAssignMutator v') = (Nodes (path v) = NilSlice \<or> bindings v = NilSlice)"
proof -
  have copy: "readMutator s' c = Some (withMadeSlices v)"
    using DeepCopy_reads [OF assms(1,2)] assms(3) by simp
  have nodes: "(\<lparr>Nodes = Slice (elems (Nodes (path v)))\<rparr> = path v) = (Nodes (path v) \<noteq> NilSlice)"
    by (cases "path v"; cases "Nodes (path v)") auto
  have binds: "(Slice (elems (bindings v)) = bindings v) = (bindings v \<noteq> NilSlice)"
    by (cases "bindings v") auto
  have "HasDiff v (IsAssignMutator (withMadeSlices v)) =
      (Nodes (path v) = NilSlice \<or> bindings v = NilSlice)"
    using nodes binds
    by (auto simp: withMadeSlices_def cmpEqualPath_eq cmpEqualSlice_eq [OF cmpEqualSchemaBinding_eq]
          cmpEqualSpec_eq)
  with copy show ?thesis by simp
qed

text \<open>
  On the store of the mutator without nodes and bindings: the copy reads with empty
  slices where the original has nil ones, and \<open>HasDiff\<close> between the original and
  its copy is true.
\<close>

lemma DeepCopy_of_nil_slices_has_diff:
  "(case DeepCopy bareStore bareMutator of
      None \<Rightarrow> False
    | Some (c, s) \<Rightarrow>
       (case readMutator s bareMutator of
          None \<Rightarrow> False
        | Some v \<Rightarrow>
           (case readMutator s c of
              None \<Rightarrow> False
            | Some v' \<Rightarrow>
                Nodes (path v) = NilSlice \<and> bindings v = NilSlice
                \<and> Nodes (path v') = Slice [] \<and> bindings v' = Slice []
                \<and> HasDiff v (IsAssignMutator v'))))"
  by (simp add: DeepCopy_def DeepCopyAssign_def copyNodes_def copyBindings_def new_def
        loadMutator_def loadNodes_def loadNodeArray_def loadBindingArray_def
        storeArray_def copyElems_def readMutator_def readPath_def asSlice_def
        loadAssign_def bareStore_def bareMutator_def cmpEqualPath_def)

lemma setReference_through_shared_pointer:
  assumes c: "nodePointers t c = Some ptrs"
      and m: "nodePointers t m = Some ptrs"
      and i: "i < length ptrs"
      and n: "readNode t (ptrs ! i) = Some (Object old)"
  shows "\<exists>t'. setReference t c i r = Some t' \<and> nodePointers t' m = Some ptrs
           \<and> readNode t' (ptrs ! i) = Some (Object r)"
proof -
  from n obtain a where a: "ptrs ! i = Some a" and cell: "cells t a = Some (NodeCell (Object old))"
    by (auto simp: readNode_def split: option.splits cell.splits)
  let ?t' = "t\<lparr>cells := (cells t)(a \<mapsto> NodeCell (Object r))\<rparr>"
  from c obtain mu hdr where mu: "loadMutator t c = Some mu"
    and hdr: "loadNodes t (pathAt mu) = Some hdr" and arr: "loadNodeArray t hdr = Some ptrs"
    by (auto simp: nodePointers_def bind_eq_Some_conv)
  have written: "setReference t c i r = Some ?t'"
    by (simp add: setReference_def mu hdr arr i a cell)
  from m obtain mu' hdr' where mu': "loadMutator t m = Some mu'"
    and hdr': "loadNodes t (pathAt mu') = Some hdr'" and arr': "loadNodeArray t hdr' = Some ptrs"
    by (auto simp: nodePointers_def bind_eq_Some_conv)
  have l1: "loadMutator ?t' m = Some mu'"
    using mu' cell by (auto simp: loadMutator_def split: option.splits cell.splits)
  have l2: "loadNodes ?t' (pathAt mu') = Some hdr'"
    using hdr' cell by (auto simp: loadNodes_def split: option.splits cell.splits)
  have l3: "loadNodeArray ?t' hdr' = Some ptrs"
    using arr' cell by (auto simp: loadNodeArray_def split: option.splits cell.splits)
  have still: "nodePointers ?t' m = Some ptrs"
    by (simp add: nodePointers_def l1 l2 l3)
  have seen: "readNode ?t' (ptrs ! i) = Some (Object r)"
    by (simp add: readNode_def a)
  from written still seen show ?thesis by blast
qed

text \<open>
  In an allocated store, take any mutator whose path has an Object node at index \<open>i\<close>.
  After \<open>DeepCopy\<close>, setting the reference of node \<open>i\<close> through the copy succeeds,
  and the node that the original's path points to at index \<open>i\<close> has the new reference.
\<close>

lemma DeepCopy_write_reaches_original:
  assumes wf: "allocated s" and dc: "DeepCopy s m = Some (c, s')"
      and ptrs: "nodePointers s m = Some ptrs"
      and i: "i < length ptrs"
      and n: "readNode s (ptrs ! i) = Some (Object old)"
  shows "\<exists>s''. setReference s' c i r = Some s'' \<and> nodePointers s'' m = Some ptrs
           \<and> readNode s'' (ptrs ! i) = Some (Object r)"
proof -
  from DeepCopy_shares_pointers [OF wf dc] ptrs
  have c: "nodePointers s' c = Some ptrs" and m: "nodePointers s' m = Some ptrs"
    by auto
  have n': "readNode s' (ptrs ! i) = Some (Object old)"
    using n by (simp add: DeepCopy_readNode [OF wf dc])
  from setReference_through_shared_pointer [OF c m i n'] show ?thesis .
qed

lemma setGroup_through_shared_header:
  assumes c: "bindingHeaders t c = Some hdrs"
      and m: "bindingHeaders t m = Some hdrs"
      and i: "i < length hdrs"
      and gs: "loadStringArray t (GroupsAt (hdrs ! i)) = Some gs"
      and j: "j < length gs"
  shows "\<exists>t'. setGroup t c i j g = Some t' \<and> bindingHeaders t' m = Some hdrs
           \<and> loadStringArray t' (GroupsAt (hdrs ! i)) = Some (gs[j := g])"
proof -
  from gs j obtain a where a: "GroupsAt (hdrs ! i) = Some a"
    and cell: "cells t a = Some (StringArrayCell gs)"
    by (cases "GroupsAt (hdrs ! i)")
       (auto simp: loadStringArray_def split: option.splits cell.splits)
  let ?t' = "t\<lparr>cells := (cells t)(a \<mapsto> StringArrayCell (gs[j := g]))\<rparr>"
  from c obtain mu where mu: "loadMutator t c = Some mu"
    and arr: "loadBindingArray t (bindingsAt mu) = Some hdrs"
    by (auto simp: bindingHeaders_def bind_eq_Some_conv)
  have written: "setGroup t c i j g = Some ?t'"
    by (simp add: setGroup_def mu arr i gs [unfolded a] j storeArray_def a)
  from m obtain mu' where mu': "loadMutator t m = Some mu'"
    and arr': "loadBindingArray t (bindingsAt mu') = Some hdrs"
    by (auto simp: bindingHeaders_def bind_eq_Some_conv)
  have l1: "loadMutator ?t' m = Some mu'"
    using mu' cell by (auto simp: loadMutator_def split: option.splits cell.splits)
  have l2: "loadBindingArray ?t' (bindingsAt mu') = Some hdrs"
    using arr' cell by (auto simp: loadBindingArray_def split: option.splits cell.splits)
  have still: "bindingHeaders ?t' m = Some hdrs"
    by (simp add: bindingHeaders_def l1 l2)
  have seen: "loadStringArray ?t' (GroupsAt (hdrs ! i)) = Some (gs[j := g])"
    by (simp add: loadStringArray_def a)
  from written still seen show ?thesis by blast
qed

text \<open>
  Likewise for the bindings: after \<open>DeepCopy\<close>, setting group \<open>j\<close> of binding \<open>i\<close>
  through the copy succeeds, and the string array that the original's binding \<open>i\<close>
  uses for its groups holds the new string.
\<close>

lemma DeepCopy_group_write_reaches_original:
  assumes wf: "allocated s" and dc: "DeepCopy s m = Some (c, s')"
      and hdrs: "bindingHeaders s m = Some hdrs"
      and i: "i < length hdrs"
      and gs: "loadStringArray s (GroupsAt (hdrs ! i)) = Some gs"
      and j: "j < length gs"
  shows "\<exists>s''. setGroup s' c i j g = Some s'' \<and> bindingHeaders s'' m = Some hdrs
           \<and> loadStringArray s'' (GroupsAt (hdrs ! i)) = Some (gs[j := g])"
proof -
  from DeepCopy_shares_pointers [OF wf dc] hdrs
  have c: "bindingHeaders s' c = Some hdrs" and m: "bindingHeaders s' m = Some hdrs"
    by auto
  have gs': "loadStringArray s' (GroupsAt (hdrs ! i)) = Some gs"
    using gs by (simp add: DeepCopy_loadStringArray [OF wf dc])
  from setGroup_through_shared_header [OF c m i gs' j] show ?thesis .
qed

lemma allocated_exampleStore: "allocated exampleStore"
  by (simp add: allocated_def exampleStore_def)

text \<open>
  In an allocated store, \<open>DeepCopy\<close> returns for every mutator that can be read
  (its declaration, its path with every node, and its bindings are there).
\<close>

lemma DeepCopy_returns:
  assumes wf: "allocated s" and r: "readMutator s m = Some v"
  shows "\<exists>c s'. DeepCopy s m = Some (c, s')"
proof -
  from r obtain mu a hdr ptrs bs where mu: "loadMutator s m = Some mu"
    and asg: "loadAssign s (assignAt mu) = Some a"
    and hdr: "loadNodes s (pathAt mu) = Some hdr"
    and arr: "loadNodeArray s hdr = Some ptrs"
    and binds: "loadBindingArray s (bindingsAt mu) = Some bs"
    by (auto simp: readMutator_def readPath_def bind_eq_Some_conv)
  define n where "n = Suc (nextAddr s)"
  define res where "res = \<lparr>idOf = idOf mu, assignAt = Some (nextAddr s), pathAt = Some (Suc n),
            bindingsAt = Some (Suc (Suc n))\<rparr>"
  define s1 where "s1 = s\<lparr>cells := (cells s)(nextAddr s \<mapsto> AssignCell a), nextAddr := n\<rparr>"
  define s2 where "s2 = s1\<lparr>cells := (cells s1)(n \<mapsto> NodeArrayCell (replicate (length ptrs) None)),
          nextAddr := Suc n\<rparr>"
  define s3 where "s3 = s2\<lparr>cells := (cells s2)(Suc n \<mapsto> PathCell (Some n)),
          nextAddr := Suc (Suc n)\<rparr>"
  define s4 where "s4 = s3\<lparr>cells := (cells s3)(Suc (Suc n) \<mapsto> BindingArrayCell
          (replicate (length bs) \<lparr>GroupsAt = None, KindsAt = None, VersionsAt = None\<rparr>)),
          nextAddr := Suc (Suc (Suc n))\<rparr>"
  define s5 where "s5 = s4\<lparr>cells := (cells s4)(Suc (Suc (Suc n)) \<mapsto> MutatorCell res),
          nextAddr := Suc (Suc (Suc (Suc n)))\<rparr>"
  define s6 where "s6 = s5\<lparr>cells := (cells s5)(n \<mapsto> NodeArrayCell ptrs)\<rparr>"
  define s7 where "s7 = s6\<lparr>cells := (cells s6)(Suc (Suc n) \<mapsto> BindingArrayCell bs)\<rparr>"
  note stores = s1_def s2_def s3_def s4_def s5_def s6_def
  have a1: "DeepCopyAssign s (assignAt mu) = Some (Some (nextAddr s), s1)"
    using asg
    by (auto simp: DeepCopyAssign_def loadAssign_def new_def s1_def n_def
             split: option.splits cell.splits)
  have n1: "nextAddr s1 = n" by (simp add: s1_def)
  have n2: "nextAddr s2 = Suc n" by (simp add: s2_def)
  have n3: "nextAddr s3 = Suc (Suc n)" by (simp add: s3_def)
  have n4: "nextAddr s4 = Suc (Suc (Suc n))" by (simp add: s4_def)
  have new1: "new s1 (NodeArrayCell (replicate (length ptrs) None)) = (n, s2)"
    by (simp add: new_def n1 s2_def)
  have new2: "new s2 (PathCell (Some n)) = (Suc n, s3)"
    by (simp add: new_def n2 s3_def)
  have new3: "new s3 (BindingArrayCell
          (replicate (length bs) \<lparr>GroupsAt = None, KindsAt = None, VersionsAt = None\<rparr>)) =
        (Suc (Suc n), s4)"
    by (simp add: new_def n3 s4_def)
  have new4: "new s4 (MutatorCell res) = (Suc (Suc (Suc n)), s5)"
    by (simp add: new_def n4 s5_def)
  have k1: "\<And>x. x < nextAddr s \<Longrightarrow> cells s1 x = cells s x"
    by (simp add: stores n_def)
  have k3: "\<And>x. x < nextAddr s \<Longrightarrow> cells s3 x = cells s x"
    by (simp add: stores n_def)
  have k5: "\<And>x. x < nextAddr s \<Longrightarrow> cells s5 x = cells s x"
    by (simp add: stores n_def)
  have k6: "\<And>x. x < nextAddr s \<Longrightarrow> cells s6 x = cells s x"
    by (simp add: stores n_def)
  have hdr1: "loadNodes s1 (pathAt mu) = Some hdr"
    by (rule load_kept(2) [OF wf k1 hdr])
  have arr1: "loadNodeArray s1 hdr = Some ptrs"
    by (rule load_kept(3) [OF wf k1 arr])
  have binds3: "loadBindingArray s3 (bindingsAt mu) = Some bs"
    by (rule load_kept(4) [OF wf k3 binds])
  have copied_nodes: "copyNodes s5 (Suc (Suc (Suc n))) m = Some s6"
  proof -
    have r: "loadMutator s5 (Suc (Suc (Suc n))) = Some res"
      by (simp add: loadMutator_def s5_def)
    have dh: "loadNodes s5 (pathAt res) = Some (Some n)"
      by (simp add: loadNodes_def stores res_def)
    have d: "loadNodeArray s5 (Some n) = Some (replicate (length ptrs) None)"
      by (simp add: loadNodeArray_def stores)
    have m5: "loadMutator s5 m = Some mu"
      by (rule load_kept(1) [OF wf k5 mu])
    have sh: "loadNodes s5 (pathAt mu) = Some hdr"
      by (rule load_kept(2) [OF wf k5 hdr])
    have sn: "loadNodeArray s5 hdr = Some ptrs"
      by (rule load_kept(3) [OF wf k5 arr])
    show ?thesis
      by (simp add: copyNodes_def r m5 dh d sh sn storeArray_def copyElems_full s6_def)
  qed
  have copied_bindings: "copyBindings s6 (Suc (Suc (Suc n))) m = Some s7"
  proof -
    have r: "loadMutator s6 (Suc (Suc (Suc n))) = Some res"
      by (simp add: loadMutator_def s5_def s6_def)
    have d: "loadBindingArray s6 (bindingsAt res) = Some (replicate (length bs)
                 \<lparr>GroupsAt = None, KindsAt = None, VersionsAt = None\<rparr>)"
      by (simp add: loadBindingArray_def stores res_def)
    have m6: "loadMutator s6 m = Some mu"
      by (rule load_kept(1) [OF wf k6 mu])
    have sb: "loadBindingArray s6 (bindingsAt mu) = Some bs"
      by (rule load_kept(4) [OF wf k6 binds])
    have b: "bindingsAt res = Some (Suc (Suc n))" by (simp add: res_def)
    show ?thesis
      by (simp add: copyBindings_def r m6 d [unfolded b] sb storeArray_def copyElems_full s7_def b)
  qed
  have "DeepCopy s m = Some (Suc (Suc (Suc n)), s7)"
    by (simp add: DeepCopy_def mu a1 hdr1 arr1 new1 new2 binds3 new3 res_def [symmetric] new4
          copied_nodes copied_bindings)
  then show ?thesis by blast
qed

subsection \<open>What DeepCopy shares with the original\<close>

text \<open>
  C8 on the example store. \<open>DeepCopy\<close> of the mutator at address 9 returns a new
  mutator that reads as the same value as the original. Yet the write
  \<^verbatim>\<open>copy.path.Nodes[0].(*parser.Object).Reference = "metadata"\<close> changes the path read
  from the original, and the write \<^verbatim>\<open>copy.bindings[0].Groups[0] = "batch"\<close> changes the
  bindings read from the original: the node objects and the string arrays of the
  bindings are shared between the two.
\<close>

theorem C8_DeepCopy_shares_nodes_and_groups:
  "(case DeepCopy exampleStore exampleMutator of
      None \<Rightarrow> False
    | Some (c, s) \<Rightarrow>
        c \<noteq> exampleMutator
        \<and> readMutator s c = readMutator s exampleMutator
        \<and> map_option path (readMutator s exampleMutator) =
            Some \<lparr>Nodes = Slice [Object ''spec'', Object ''replicas'']\<rparr>
        \<and> map_option bindings (readMutator s exampleMutator) =
            Some (Slice [\<lparr>BGroups = Slice [''apps''], BKinds = Slice [''Deployment''],
                          BVersions = Slice [''v1'']\<rparr>])
        \<and> (case setReference s c 0 ''metadata'' of
              None \<Rightarrow> False
            | Some s' \<Rightarrow>
                map_option path (readMutator s' exampleMutator) =
                  Some \<lparr>Nodes = Slice [Object ''metadata'', Object ''replicas'']\<rparr>)
        \<and> (case setGroup s c 0 0 ''batch'' of
              None \<Rightarrow> False
            | Some s' \<Rightarrow>
                map_option bindings (readMutator s' exampleMutator) =
                  Some (Slice [\<lparr>BGroups = Slice [''batch''], BKinds = Slice [''Deployment''],
                                BVersions = Slice [''v1'']\<rparr>])))"
  by (simp add: DeepCopy_def DeepCopyAssign_def copyNodes_def copyBindings_def new_def
        loadMutator_def loadNodes_def loadNodeArray_def loadBindingArray_def loadStringArray_def
        storeArray_def copyElems_def setReference_def setGroup_def readMutator_def readPath_def
        readNode_def readBinding_def readStrings_def asSlice_def loadAssign_def
        exampleStore_def exampleMutator_def)

subsection \<open>Construction does not validate\<close>

text \<open>
  C9, as the specification states it, fails: the declaration with location
  \<open>metadata.labels.team\<close> is rejected by \<open>IsValidAssign\<close>, and \<open>MutatorForAssign\<close>
  builds a mutator from it all the same.
\<close>

theorem C9_construction_validates_counterexample:
  "IsValidAssign Parse_spec decodeExamples (exampleAssign ''metadata.labels.team'' payloadScalar) =
     Some (New ''assign can't change metadata'')
   \<and> MutatorForAssign MakeID_example Parse_spec (exampleAssign ''metadata.labels.team'' payloadScalar) =
     Inr \<lparr>id' = ''demo'',
          assign = exampleAssign ''metadata.labels.team'' payloadScalar,
          path = \<lparr>Nodes = Slice [Object ''metadata'', Object ''labels'', Object ''team'']\<rparr>,
          bindings = Slice [\<lparr>BGroups = Slice [''apps''], BKinds = Slice [''Deployment''],
                             BVersions = Slice [''v1'']\<rparr>]\<rparr>"
proof -
  have parse: "Parse_spec ''metadata.labels.team'' =
      Inr \<lparr>Nodes = Slice [Object ''metadata'', Object ''labels'', Object ''team'']\<rparr>"
    by (simp add: Parse_spec_def consNode_def finishIdent_def)
  have rejected: "IsValidAssign Parse_spec decodeExamples
      (exampleAssign ''metadata.labels.team'' payloadScalar) = Some (New ''assign can't change metadata'')"
    by (simp add: IsValidAssign_def exampleAssign_def parse hasMetadataRoot_def)
  have built: "MutatorForAssign MakeID_example Parse_spec
      (exampleAssign ''metadata.labels.team'' payloadScalar) =
     Inr \<lparr>id' = ''demo'',
          assign = exampleAssign ''metadata.labels.team'' payloadScalar,
          path = \<lparr>Nodes = Slice [Object ''metadata'', Object ''labels'', Object ''team'']\<rparr>,
          bindings = Slice [\<lparr>BGroups = Slice [''apps''], BKinds = Slice [''Deployment''],
                             BVersions = Slice [''v1'']\<rparr>]\<rparr>"
    by (simp add: MutatorForAssign_def MakeID_example_def exampleAssign_def parse
          applyToToBindings_map)
  from rejected built show ?thesis by blast
qed

text \<open>
  C9, amended. \<open>MutatorForAssign\<close> computes the identity and parses the location, and
  nothing else decides its outcome: it returns an error exactly when \<open>MakeID\<close> or the
  parser returns one (the error of \<open>MakeID\<close> first), and otherwise it returns the mutator
  made of the identity, the declaration, the parsed path and one binding for each
  \<open>applyTo\<close> entry, with the same groups, kinds and versions. The validation rules are
  those of \<open>IsValidAssign\<close>, which construction does not call.
\<close>

theorem C9_construction_parses_only:
  "(\<forall>e. MakeID a = Inl e \<longrightarrow>
       MutatorForAssign MakeID Parse a = Inl (Wrap e ''Failed to retrieve id for assign type''))
   \<and> (\<forall>i e. MakeID a = Inr i \<and> Parse (Location (Spec a)) = Inl e \<longrightarrow>
       MutatorForAssign MakeID Parse a = Inl (Wrap e ''Failed to parse the location specified''))
   \<and> (\<forall>i p. MakeID a = Inr i \<and> Parse (Location (Spec a)) = Inr p \<longrightarrow>
       MutatorForAssign MakeID Parse a =
         Inr \<lparr>id' = i, assign = a, path = p,
              bindings = Slice (map (\<lambda>t. \<lparr>BGroups = Slice (elems (Groups t)),
                                         BKinds = Slice (elems (Kinds t)),
                                         BVersions = Slice (elems (Versions t))\<rparr>)
                                  (elems (ApplyTo (Spec a))))\<rparr>)"
  by (simp add: MutatorForAssign_def applyToToBindings_map)

theorem C9_construction_parses_only_witness:
  "MutatorForAssign (\<lambda>a. Inl (External ''no kind'')) Parse_spec
     (exampleAssign ''spec.replicas'' payloadScalar) =
     (Inl (Wrap (External ''no kind'') ''Failed to retrieve id for assign type'')
        :: error + (string, unit) AssignMutator)
   \<and> MutatorForAssign MakeID_example Parse_spec (exampleAssign ''spec..replicas'' payloadScalar) =
     Inl (Wrap (External ''empty identifier'') ''Failed to parse the location specified'')
   \<and> MutatorForAssign MakeID_example Parse_spec
       (exampleAssign ''spec.containers[name: nginx].name'' payloadScalar) =
     Inr \<lparr>id' = ''demo'',
          assign = exampleAssign ''spec.containers[name: nginx].name'' payloadScalar,
          path = \<lparr>Nodes = Slice [Object ''spec'', Object ''containers'',
                           List ''name'' (Some ''nginx'') False, Object ''name'']\<rparr>,
          bindings = Slice [\<lparr>BGroups = Slice [''apps''], BKinds = Slice [''Deployment''],
                             BVersions = Slice [''v1'']\<rparr>]\<rparr>"
proof -
  have parse_bad: "Parse_spec ''spec..replicas'' = Inl (External ''empty identifier'')"
    by (simp add: Parse_spec_def consNode_def finishIdent_def)
  have parse_key: "Parse_spec ''spec.containers[name: nginx].name'' =
      Inr \<lparr>Nodes = Slice [Object ''spec'', Object ''containers'',
                     List ''name'' (Some ''nginx'') False, Object ''name'']\<rparr>"
    by (simp add: Parse_spec_def consNode_def finishIdent_def unquote_def)
  have noid: "MutatorForAssign (\<lambda>a. Inl (External ''no kind'')) Parse_spec
     (exampleAssign ''spec.replicas'' payloadScalar) =
     (Inl (Wrap (External ''no kind'') ''Failed to retrieve id for assign type'')
        :: error + (string, unit) AssignMutator)"
    using C9_construction_parses_only [of "\<lambda>a. Inl (External ''no kind'')"
        "exampleAssign ''spec.replicas'' payloadScalar" Parse_spec]
    by simp
  have noparse: "MutatorForAssign MakeID_example Parse_spec
      (exampleAssign ''spec..replicas'' payloadScalar) =
     Inl (Wrap (External ''empty identifier'') ''Failed to parse the location specified'')"
    using C9_construction_parses_only [of MakeID_example
        "exampleAssign ''spec..replicas'' payloadScalar" Parse_spec]
    by (simp add: MakeID_example_def exampleAssign_def parse_bad)
  have built: "MutatorForAssign MakeID_example Parse_spec
       (exampleAssign ''spec.containers[name: nginx].name'' payloadScalar) =
     Inr \<lparr>id' = ''demo'',
          assign = exampleAssign ''spec.containers[name: nginx].name'' payloadScalar,
          path = \<lparr>Nodes = Slice [Object ''spec'', Object ''containers'',
                           List ''name'' (Some ''nginx'') False, Object ''name'']\<rparr>,
          bindings = Slice [\<lparr>BGroups = Slice [''apps''], BKinds = Slice [''Deployment''],
                             BVersions = Slice [''v1'']\<rparr>]\<rparr>"
    using C9_construction_parses_only [of MakeID_example
        "exampleAssign ''spec.containers[name: nginx].name'' payloadScalar" Parse_spec]
    by (simp add: MakeID_example_def exampleAssign_def parse_key)
  from noid noparse built show ?thesis by blast
qed

subsection \<open>A path that ends in an object node\<close>

text \<open>
  C10. If the location parses to a non-empty path whose last node is an Object node,
  the path does not start at metadata and passes the key rule, and the payload is a
  map with a \<open>value\<close> field, then \<open>IsValidAssign\<close> accepts, whatever that field holds.
\<close>

theorem C10_object_node_takes_any_value:
  assumes "Parse (Location (Spec a)) = Inr p"
      and "elems (Nodes p) \<noteq> []"
      and "last (elems (Nodes p)) = Object r"
      and "\<not> hasMetadataRoot p"
      and "checkKeyNotChanged p = None"
      and "unmarshalMap decode (elems (Parameters (Spec a))) = Inr toAssign"
      and "map_of toAssign ''value'' = Some v"
  shows "IsValidAssign Parse decode a = None"
  using assms(4-7)
  by (simp add: IsValidAssign_parsed [of Parse a p decode, OF assms(1)]
        validate_on_object_node [OF assms(2) assms(3)])

theorem C10_object_node_takes_any_value_witness:
  "IsValidAssign Parse_spec decodeExamples
     (exampleAssign ''spec.containers[name: nginx].image'' payloadScalar) = None
   \<and> IsValidAssign Parse_spec decodeExamples
     (exampleAssign ''spec.containers[name: nginx].image'' payloadNginx) = None"
proof -
  let ?p = "\<lparr>Nodes = Slice [Object ''spec'', Object ''containers'',
               List ''name'' (Some ''nginx'') False, Object ''image'']\<rparr>"
  let ?scalar = "exampleAssign ''spec.containers[name: nginx].image'' payloadScalar"
  let ?object = "exampleAssign ''spec.containers[name: nginx].image'' payloadNginx"
  note payloads = payloadNginx_def payloadSidecar_def payloadScalar_def payloadNoValue_def
    payloadArray_def
  have parse: "Parse_spec ''spec.containers[name: nginx].image'' = Inr ?p"
    by (simp add: Parse_spec_def consNode_def finishIdent_def unquote_def)
  have parse_scalar: "Parse_spec (Location (Spec ?scalar)) = Inr ?p"
    by (simp add: exampleAssign_def parse)
  have parse_object: "Parse_spec (Location (Spec ?object)) = Inr ?p"
    by (simp add: exampleAssign_def parse)
  have nonempty: "elems (Nodes ?p) \<noteq> []" by simp
  have ends: "last (elems (Nodes ?p)) = Object ''image''" by simp
  have root: "\<not> hasMetadataRoot ?p" by (simp add: hasMetadataRoot_def)
  have key: "checkKeyNotChanged ?p = None" by (simp add: checkKeyNotChanged_def)
  have decode_scalar: "unmarshalMap decodeExamples (elems (Parameters (Spec ?scalar))) =
      Inr [(''value'', VString ''nginx:1.21'')]"
    by (simp add: exampleAssign_def unmarshalMap_def decodeExamples_def payloads)
  have decode_object: "unmarshalMap decodeExamples (elems (Parameters (Spec ?object))) =
      Inr [(''value'', VMap [(''name'', VString ''nginx''), (''image'', VString ''nginx:1.21'')])]"
    by (simp add: exampleAssign_def unmarshalMap_def decodeExamples_def payloads)
  have scalar: "IsValidAssign Parse_spec decodeExamples ?scalar = None"
    using C10_object_node_takes_any_value [of Parse_spec ?scalar ?p "''image''" decodeExamples,
        OF parse_scalar nonempty ends root key decode_scalar]
    by simp
  have object: "IsValidAssign Parse_spec decodeExamples ?object = None"
    using C10_object_node_takes_any_value [of Parse_spec ?object ?p "''image''" decodeExamples,
        OF parse_object nonempty ends root key decode_object]
    by simp
  from scalar object show ?thesis by blast
qed

end
